theory Spec2Isabelle
  imports Main "HOL-Library.Sublist"
begin

section \<open>Python strings\<close>

text \<open>
  A Python \<open>str\<close> is a sequence of Unicode code points, so a string is modelled as a list
  of code points (natural numbers): \<open>len\<close> is \<open>length\<close>, slicing is \<open>take\<close>/\<open>drop\<close>.
  ASCII literals are written with \<open>ascii\<close>; the Cyrillic literals of the program are
  spelled out as code points (the capital letters are U+0410 .. U+042F, that is
  1040 .. 1071, the small letters are 32 higher).
\<close>

type_synonym pystr = "nat list"

definition ascii :: "string \<Rightarrow> pystr" where
  "ascii s = map of_char s"

definition NL :: nat where
  "NL = 10"

text \<open>White space, as \<open>str.strip\<close> and \<open>str.isspace\<close> see it: the complete set of CPython.\<close>

definition py_isspace :: "nat \<Rightarrow> bool" where
  "py_isspace c \<longleftrightarrow>
     (9 \<le> c \<and> c \<le> 13) \<or> (28 \<le> c \<and> c \<le> 32) \<or> c = 133 \<or> c = 160 \<or> c = 5760 \<or>
     (8192 \<le> c \<and> c \<le> 8202) \<or> c = 8232 \<or> c = 8233 \<or> c = 8239 \<or> c = 8287 \<or> c = 12288"

text \<open>
  The case mappings and the digit property come from the Unicode character database of
  the interpreter, which is not part of the program. They are arguments of the model,
  and every function below that depends on them takes them as \<open>U\<close>:

    \<^item> \<open>toupper_full U c\<close> is the full upper-case mapping of the code point \<open>c\<close>, a string
      of one to three code points (the German sharp s gives \<open>SS\<close>, the dotless i gives
      \<open>I\<close>); \<open>str.upper\<close> maps every code point of its argument on its own and
      concatenates the results;
    \<^item> \<open>str_lower U s\<close> is \<open>s.lower()\<close>, which looks at the context of a code point (the
      final form of the Greek sigma), so it is a function of the whole string;
    \<^item> \<open>char_isdigit U c\<close> is \<open>str.isdigit\<close> of the one-character string \<open>c\<close>; it holds
      of the ASCII digits and of several hundred other code points (Arabic-Indic,
      circled and full-width digits, superscripts).
\<close>

record unicode =
  toupper_full :: "nat \<Rightarrow> pystr"
  str_lower :: "pystr \<Rightarrow> pystr"
  char_isdigit :: "nat \<Rightarrow> bool"

definition py_upper :: "unicode \<Rightarrow> pystr \<Rightarrow> pystr" where
  "py_upper U s = concat (map (toupper_full U) s)"

definition py_lower :: "unicode \<Rightarrow> pystr \<Rightarrow> pystr" where
  "py_lower U s = str_lower U s"

text \<open>\<open>s.lstrip()\<close>, \<open>s.rstrip()\<close>, \<open>s.strip()\<close> and \<open>s.lstrip(chars)\<close>.\<close>

definition py_lstrip :: "pystr \<Rightarrow> pystr" where
  "py_lstrip s = dropWhile py_isspace s"

definition py_rstrip :: "pystr \<Rightarrow> pystr" where
  "py_rstrip s = rev (dropWhile py_isspace (rev s))"

definition py_strip :: "pystr \<Rightarrow> pystr" where
  "py_strip s = py_rstrip (py_lstrip s)"

definition lstrip_chars :: "pystr \<Rightarrow> pystr \<Rightarrow> pystr" where
  "lstrip_chars chars s = dropWhile (\<lambda>c. c \<in> set chars) s"

text \<open>\<open>s.startswith(p)\<close>, \<open>s.endswith(p)\<close> and the substring test \<open>a in s\<close>.\<close>

fun startswith :: "pystr \<Rightarrow> pystr \<Rightarrow> bool" where
  "startswith s [] = True"
| "startswith [] (p # ps) = False"
| "startswith (c # cs) (p # ps) = (c = p \<and> startswith cs ps)"

definition endswith :: "pystr \<Rightarrow> pystr \<Rightarrow> bool" where
  "endswith s p = startswith (rev s) (rev p)"

fun py_in :: "pystr \<Rightarrow> pystr \<Rightarrow> bool" where
  "py_in a [] = (a = [])"
| "py_in a (c # cs) = (startswith (c # cs) a \<or> py_in a cs)"

text \<open>\<open>s.split(sep)\<close> for a one-character separator, and \<open>sep.join(parts)\<close>.\<close>

fun split_on :: "nat \<Rightarrow> pystr \<Rightarrow> pystr list" where
  "split_on sep [] = [[]]"
| "split_on sep (c # cs) =
     (if c = sep then [] # split_on sep cs
      else (case split_on sep cs of [] \<Rightarrow> [[c]] | l # ls \<Rightarrow> (c # l) # ls))"

fun join_with :: "pystr \<Rightarrow> pystr list \<Rightarrow> pystr" where
  "join_with sep [] = []"
| "join_with sep [x] = x"
| "join_with sep (x # y # ys) = x @ sep @ join_with sep (y # ys)"

definition split_lines :: "pystr \<Rightarrow> pystr list" where
  "split_lines s = split_on NL s"

definition join_lines :: "pystr list \<Rightarrow> pystr" where
  "join_lines ls = join_with [NL] ls"

section \<open>Python dictionaries\<close>

text \<open>
  A \<open>dict\<close> keeps its keys in insertion order, and assigning to a key that is present
  keeps the key's place: an association list with distinct keys.
\<close>

type_synonym ('k, 'v) pydict = "('k \<times> 'v) list"

fun dict_set :: "'k \<Rightarrow> 'v \<Rightarrow> ('k, 'v) pydict \<Rightarrow> ('k, 'v) pydict" where
  "dict_set k v [] = [(k, v)]"
| "dict_set k v ((k', v') # d) =
     (if k' = k then (k, v) # d else (k', v') # dict_set k v d)"

definition dict_keys :: "('k, 'v) pydict \<Rightarrow> 'k list" where
  "dict_keys d = map fst d"

definition dict_get :: "('k, 'v) pydict \<Rightarrow> 'k \<Rightarrow> 'v option" where
  "dict_get d k = map_of d k"

section \<open>The section document model (utils.py)\<close>

text \<open>The keyword list of \<open>parse_sections\<close>, in the source's order.\<close>

definition section_keywords :: "pystr list" where
  "section_keywords =
     [[1047, 1040, 1044, 1040, 1063, 1040],
      ascii ''GOAL'',
      [1058, 1056, 1045, 1041, 1054, 1042, 1040, 1053, 1048, 1071],
      ascii ''REQUIREMENTS'',
      ascii ''TECH STACK'',
      [1040, 1056, 1061, 1048, 1058, 1045, 1050, 1058, 1059, 1056, 1040],
      ascii ''ARCHITECTURE'',
      [1044, 1054, 1055, 1054, 1051, 1053, 1048, 1058, 1045, 1051, 1068, 1053, 1067, 1045],
      ascii ''ADDITIONAL'',
      ascii ''OUTPUT'',
      [1060, 1054, 1056, 1052, 1040, 1058]]"

text \<open>The key of the single section of a prompt without headings (thirteen code points,
  the Russian for "full prompt").\<close>

definition full_prompt_key :: pystr where
  "full_prompt_key = [1055, 1086, 1083, 1085, 1099, 1081, 32, 1087, 1088, 1086, 1084, 1087, 1090]"

text \<open>The test of the loop of \<open>parse_sections\<close>:
  \<open>line.strip().startswith('#') and any(keyword in line.upper() for keyword in [...])\<close>.\<close>

definition is_section_heading :: "unicode \<Rightarrow> pystr \<Rightarrow> bool" where
  "is_section_heading U line \<longleftrightarrow>
     startswith (py_strip line) (ascii ''#'') \<and>
     list_ex (\<lambda>keyword. py_in keyword (py_upper U line)) section_keywords"

text \<open>Truthiness of \<open>current_section\<close>, which is \<open>None\<close> or a string.\<close>

fun truthy :: "pystr option \<Rightarrow> bool" where
  "truthy None = False"
| "truthy (Some s) = (s \<noteq> [])"

text \<open>Storing the section that is being closed: \<open>if current_section:
  sections[current_section] = '\n'.join(current_content).strip()\<close>.\<close>

fun save_section :: "pystr option \<Rightarrow> pystr list \<Rightarrow> (pystr, pystr) pydict \<Rightarrow> (pystr, pystr) pydict" where
  "save_section None content sections = sections"
| "save_section (Some k) content sections =
     (if k \<noteq> [] then dict_set k (py_strip (join_lines content)) sections else sections)"

text \<open>The \<open>for line in lines\<close> loop, on the state
  \<open>(sections, current_section, current_content)\<close>.\<close>

fun parse_loop ::
  "unicode \<Rightarrow> pystr list \<Rightarrow> (pystr, pystr) pydict \<Rightarrow> pystr option \<Rightarrow> pystr list \<Rightarrow>
   (pystr, pystr) pydict \<times> pystr option \<times> pystr list" where
  "parse_loop U [] sections cur content = (sections, cur, content)"
| "parse_loop U (line # lines) sections cur content =
     (if is_section_heading U line
      then parse_loop U lines (save_section cur content sections) (Some (py_strip line)) []
      else parse_loop U lines sections cur (if truthy cur then content @ [line] else content))"

definition parse_sections :: "unicode \<Rightarrow> pystr \<Rightarrow> (pystr, pystr) pydict" where
  "parse_sections U prompt =
     (case parse_loop U (split_lines prompt) [] None [] of
        (sections, cur, content) \<Rightarrow>
          (let sections' = save_section cur content sections
           in if sections' = [] then [(full_prompt_key, prompt)] else sections'))"

definition get_section_list :: "unicode \<Rightarrow> pystr \<Rightarrow> pystr list" where
  "get_section_list U prompt = dict_keys (parse_sections U prompt)"

text \<open>The reserialisation shared by \<open>update_section\<close>, \<open>add_requirement_to_prompt\<close> and
  \<open>remove_requirement_from_prompt\<close>: heading, body and an empty line per section, joined
  by newlines, and the whole stripped.\<close>

definition serialize_sections :: "(pystr, pystr) pydict \<Rightarrow> pystr" where
  "serialize_sections sections =
     py_strip (join_lines (concat (map (\<lambda>(k, c). [k, c, []]) sections)))"

text \<open>The bidirectional, case-insensitive match of \<open>update_section\<close>.\<close>

definition name_matches :: "unicode \<Rightarrow> pystr \<Rightarrow> pystr \<Rightarrow> bool" where
  "name_matches U section_name section_key \<longleftrightarrow>
     py_in (py_lower U section_name) (py_lower U section_key) \<or>
     py_in (py_lower U section_key) (py_lower U section_name)"

definition update_sections :: "unicode \<Rightarrow> pystr \<Rightarrow> pystr \<Rightarrow> (pystr, pystr) pydict \<Rightarrow> (pystr, pystr) pydict" where
  "update_sections U section_name new_content sections =
     (let matched_section = find (name_matches U section_name) (dict_keys sections)
      in if truthy matched_section
         then (case matched_section of
                 Some k \<Rightarrow> dict_set k new_content sections
               | None \<Rightarrow> sections)
         else dict_set (ascii ''# '' @ py_upper U section_name) new_content sections)"

definition update_section :: "unicode \<Rightarrow> pystr \<Rightarrow> pystr \<Rightarrow> pystr \<Rightarrow> pystr" where
  "update_section U prompt section_name new_content =
     serialize_sections (update_sections U section_name new_content (parse_sections U prompt))"

text \<open>The lookup of the requirements section, the same in \<open>add_requirement_to_prompt\<close> and
  \<open>remove_requirement_from_prompt\<close>: the first key whose upper-case form contains one of
  the two requirement keywords.\<close>

definition requirement_keywords :: "pystr list" where
  "requirement_keywords =
     [[1058, 1056, 1045, 1041, 1054, 1042, 1040, 1053, 1048, 1071], ascii ''REQUIREMENTS'']"

definition is_requirements_key :: "unicode \<Rightarrow> pystr \<Rightarrow> bool" where
  "is_requirements_key U section_key \<longleftrightarrow>
     list_ex (\<lambda>keyword. py_in keyword (py_upper U section_key)) requirement_keywords"

definition find_requirements_section :: "unicode \<Rightarrow> (pystr, pystr) pydict \<Rightarrow> pystr option" where
  "find_requirements_section U sections = find (is_requirements_key U) (dict_keys sections)"

text \<open>The heading of a requirements section that \<open>add_requirement_to_prompt\<close> creates:
  \<open># TREBOVANIYA / # REQUIREMENTS\<close>, the first word in Cyrillic capitals.\<close>

definition new_requirements_key :: pystr where
  "new_requirements_key =
     [35, 32, 1058, 1056, 1045, 1041, 1054, 1042, 1040, 1053, 1048, 1071, 32, 47, 32] @
     ascii ''# REQUIREMENTS''"

text \<open>In both functions the key that is read with \<open>sections[requirements_section]\<close> was
  taken from the dictionary's own keys, so the read cannot raise \<open>KeyError\<close>; the model
  leaves the dictionary as it is in that unreachable case.\<close>

definition add_requirement_sections :: "unicode \<Rightarrow> pystr \<Rightarrow> (pystr, pystr) pydict \<Rightarrow> (pystr, pystr) pydict" where
  "add_requirement_sections U requirement sections =
     (let requirements_section = find_requirements_section U sections
      in if truthy requirements_section
         then (case requirements_section of
                 Some k \<Rightarrow>
                   (case dict_get sections k of
                      Some current_content \<Rightarrow>
                        dict_set k (current_content @ [NL] @ ascii ''- '' @ requirement) sections
                    | None \<Rightarrow> sections)
               | None \<Rightarrow> sections)
         else dict_set new_requirements_key (ascii ''- '' @ requirement) sections)"

definition add_requirement_to_prompt :: "unicode \<Rightarrow> pystr \<Rightarrow> pystr \<Rightarrow> pystr" where
  "add_requirement_to_prompt U prompt requirement =
     serialize_sections (add_requirement_sections U requirement (parse_sections U prompt))"

definition remove_requirement_sections :: "unicode \<Rightarrow> pystr \<Rightarrow> (pystr, pystr) pydict \<Rightarrow> (pystr, pystr) pydict" where
  "remove_requirement_sections U requirement_text sections =
     (let requirements_section = find_requirements_section U sections
      in if truthy requirements_section
         then (case requirements_section of
                 Some k \<Rightarrow>
                   (case dict_get sections k of
                      Some content \<Rightarrow>
                        dict_set k
                          (py_strip (join_lines
                             (filter (\<lambda>line. \<not> py_in (py_lower U requirement_text) (py_lower U line))
                                (split_lines content))))
                          sections
                    | None \<Rightarrow> sections)
               | None \<Rightarrow> sections)
         else sections)"

definition remove_requirement_from_prompt :: "unicode \<Rightarrow> pystr \<Rightarrow> pystr \<Rightarrow> pystr" where
  "remove_requirement_from_prompt U prompt requirement_text =
     serialize_sections (remove_requirement_sections U requirement_text (parse_sections U prompt))"

section \<open>The completion gateway adapter (llm_client.py)\<close>

text \<open>
  One attempt of \<open>_call_with_retry\<close> calls the completion service, which returns the
  message content (\<open>None\<close> is possible), raises an \<open>OpenAIError\<close> (a service-reported
  error) or raises another exception. The service is a script: the outcome of attempt
  number \<open>0, 1, 2, ...\<close>
\<close>

datatype 'e outcome = Returned "pystr option" | OpenAIError 'e | OtherException 'e

text \<open>
  What a run of \<open>_call_with_retry\<close> did: \<open>Inl e\<close> when it raised \<open>e\<close>, \<open>Inr r\<close> when it
  returned \<open>r\<close>; the number of completion calls; the arguments of \<open>asyncio.sleep\<close>, in
  order.
\<close>

record 'e retry_run =
  outcome_of :: "'e + pystr option"
  calls :: nat
  sleeps :: "int list"

text \<open>The loop \<open>for attempt in range(max_retries)\<close>, from iteration \<open>attempt\<close> on.\<close>

function retry_loop ::
  "(nat \<Rightarrow> 'e outcome) \<Rightarrow> int \<Rightarrow> nat \<Rightarrow> int \<Rightarrow> int list \<Rightarrow> 'e retry_run" where
  "retry_loop api max_retries attempt delay slept =
     (if int attempt < max_retries
      then (case api attempt of
              Returned r \<Rightarrow> \<lparr>outcome_of = Inr r, calls = attempt + 1, sleeps = slept\<rparr>
            | OpenAIError e \<Rightarrow>
                if int attempt < max_retries - 1
                then retry_loop api max_retries (attempt + 1) (delay * 2) (slept @ [delay])
                else \<lparr>outcome_of = Inl e, calls = attempt + 1, sleeps = slept\<rparr>
            | OtherException e \<Rightarrow> \<lparr>outcome_of = Inl e, calls = attempt + 1, sleeps = slept\<rparr>)
      else \<lparr>outcome_of = Inr None, calls = attempt, sleeps = slept\<rparr>)"
  by pat_completeness auto
termination
  by (relation "measure (\<lambda>(api, max_retries, attempt, delay, slept). nat (max_retries - int attempt))") auto

text \<open>\<open>_call_with_retry\<close>, with the base delay (\<open>config.RETRY_DELAY\<close>) as an argument.\<close>

definition call_with_retry :: "int \<Rightarrow> (nat \<Rightarrow> 'e outcome) \<Rightarrow> int \<Rightarrow> 'e retry_run" where
  "call_with_retry retry_delay api max_retries = retry_loop api max_retries 0 retry_delay []"

definition MAX_RETRIES :: int where
  "MAX_RETRIES = 3"

definition RETRY_DELAY :: int where
  "RETRY_DELAY = 1"

text \<open>What a generation entry point raises: the exception \<open>_call_with_retry\<close> let through,
  or its own \<open>ValueError\<close> for an empty response.\<close>

datatype 'e failure = Propagated 'e | ValueError

subsection \<open>Extraction of the questions\<close>

text \<open>\<open>line[0].isdigit() or line.startswith('-')\<close>, for a line that is not empty.\<close>

definition is_candidate :: "unicode \<Rightarrow> pystr \<Rightarrow> bool" where
  "is_candidate U line \<longleftrightarrow>
     line \<noteq> [] \<and> (char_isdigit U (hd line) \<or> startswith line (ascii ''-''))"

text \<open>\<open>s.split('.', 1)\<close>: at most one split, at the first dot.\<close>

definition split_once :: "nat \<Rightarrow> pystr \<Rightarrow> pystr list" where
  "split_once sep s =
     (if sep \<in> set s then [takeWhile (\<lambda>c. c \<noteq> sep) s, drop 1 (dropWhile (\<lambda>c. c \<noteq> sep) s)]
      else [s])"

text \<open>The two assignments to \<open>question\<close>:
  \<open>line.split('.', 1)[-1].strip()\<close> and \<open>question.lstrip('- ').strip()\<close>.\<close>

definition strip_numbering :: "pystr \<Rightarrow> pystr" where
  "strip_numbering line =
     py_strip (lstrip_chars (ascii ''- '') (py_strip (last (split_once 46 line))))"

text \<open>The loop over the lines of the response, appending to \<open>questions\<close>.\<close>

fun questions_loop :: "unicode \<Rightarrow> pystr list \<Rightarrow> pystr list \<Rightarrow> pystr list" where
  "questions_loop U [] questions = questions"
| "questions_loop U (raw # rest) questions =
     (let line = py_strip raw
      in if is_candidate U line
         then (let question = strip_numbering line
               in if question \<noteq> [] \<and> endswith question (ascii ''?'')
                  then questions_loop U rest (questions @ [question])
                  else questions_loop U rest questions)
         else questions_loop U rest questions)"

definition extract_questions :: "unicode \<Rightarrow> pystr \<Rightarrow> pystr list" where
  "extract_questions U response =
     (let questions = questions_loop U (split_lines (py_strip response)) []
      in if questions = [] then [py_strip response] else questions)"

text \<open>\<open>generate_clarification_questions\<close>, given the script of the completion service for
  this request.\<close>

definition generate_clarification_questions :: "unicode \<Rightarrow> (nat \<Rightarrow> 'e outcome) \<Rightarrow> 'e failure + pystr list" where
  "generate_clarification_questions U api =
     (case outcome_of (call_with_retry RETRY_DELAY api MAX_RETRIES) of
        Inl e \<Rightarrow> Inl (Propagated e)
      | Inr response \<Rightarrow>
          if \<not> truthy response then Inl ValueError
          else (case response of Some text \<Rightarrow> Inr (extract_questions U text) | None \<Rightarrow> Inl ValueError))"

subsection \<open>Normalisation of the recommendations\<close>

text \<open>A JSON value, as \<open>json.loads\<close> returns it (a number is kept as its literal).\<close>

datatype json = JNull | JBool bool | JNumber pystr | JString pystr | JList "json list"
  | JDict "(pystr \<times> json) list"

text \<open>\<open>s.find(c)\<close> and \<open>s.rfind(c)\<close> for one character: the index, or -1.\<close>

definition py_find :: "nat \<Rightarrow> pystr \<Rightarrow> int" where
  "py_find c s = (if c \<in> set s then int (length (takeWhile (\<lambda>x. x \<noteq> c) s)) else - 1)"

definition py_rfind :: "nat \<Rightarrow> pystr \<Rightarrow> int" where
  "py_rfind c s =
     (if c \<in> set s then int (length s) - 1 - int (length (takeWhile (\<lambda>x. x \<noteq> c) (rev s)))
      else - 1)"

text \<open>\<open>s[a:b]\<close> for indices that are not negative.\<close>

definition py_slice :: "pystr \<Rightarrow> int \<Rightarrow> int \<Rightarrow> pystr" where
  "py_slice s a b = drop (nat a) (take (nat b) s)"

text \<open>The placeholder of the fallback records (nineteen code points, the Russian for
  "needs clarification").\<close>

definition needs_clarification :: pystr where
  "needs_clarification =
     [1058, 1088, 1077, 1073, 1091, 1077, 1090, 1089, 1103, 32,
      1091, 1090, 1086, 1095, 1085, 1077, 1085, 1080, 1077]"

text \<open>
  \<open>json.loads\<close> is an argument of the model. A call returns a value, raises
  \<open>JSONDecodeError\<close>, or raises another exception (\<open>RecursionError\<close> on deeply nested
  input, \<open>ValueError\<close> on an integer literal beyond the interpreter's digit limit).
\<close>

datatype 'e loads_result = Loaded json | JSONDecodeError | LoadsRaised 'e

text \<open>
  The \<open>try\<close> block of \<open>generate_recommendations\<close>, with its two dictionary literals.
  Its only handler is \<open>except json.JSONDecodeError\<close>, so any other exception of
  \<open>json.loads\<close> leaves the block: the result is \<open>Inl e\<close> when \<open>e\<close> is raised and
  \<open>Inr recommendations\<close> when the block completes.
\<close>

definition normalize_recommendations :: "(pystr \<Rightarrow> 'e loads_result) \<Rightarrow> pystr \<Rightarrow> 'e + json" where
  "normalize_recommendations json_loads response =
     (let json_start = py_find 123 response;
          json_end = py_rfind 125 response + 1
      in if json_start \<noteq> - 1 \<and> json_end > json_start
         then (case json_loads (py_slice response json_start json_end) of
                 Loaded recommendations \<Rightarrow> Inr recommendations
               | JSONDecodeError \<Rightarrow>
                   Inr (JDict [(ascii ''tech_stack'', JString needs_clarification),
                               (ascii ''architecture'', JString needs_clarification),
                               (ascii ''key_features'', JList []),
                               (ascii ''scalability'', JString needs_clarification),
                               (ascii ''compliance'', JString needs_clarification),
                               (ascii ''risks'', JList []),
                               (ascii ''recommendation_summary'', JString response)])
               | LoadsRaised e \<Rightarrow> Inl e)
         else Inr (JDict [(ascii ''tech_stack'',
                            JString (if length response > 200 then take 200 response else response)),
                          (ascii ''architecture'', JString needs_clarification),
                          (ascii ''key_features'', JList []),
                          (ascii ''scalability'', JString needs_clarification),
                          (ascii ''compliance'', JString needs_clarification),
                          (ascii ''risks'', JList []),
                          (ascii ''recommendation_summary'', JString response)]))"

definition generate_recommendations ::
  "(pystr \<Rightarrow> 'e loads_result) \<Rightarrow> (nat \<Rightarrow> 'e outcome) \<Rightarrow> 'e failure + json" where
  "generate_recommendations json_loads api =
     (case outcome_of (call_with_retry RETRY_DELAY api MAX_RETRIES) of
        Inl e \<Rightarrow> Inl (Propagated e)
      | Inr response \<Rightarrow>
          if \<not> truthy response then Inl ValueError
          else (case response of
                  Some text \<Rightarrow>
                    (case normalize_recommendations json_loads text of
                       Inl e \<Rightarrow> Inl (Propagated e)
                     | Inr recommendations \<Rightarrow> Inr recommendations)
                | None \<Rightarrow> Inl ValueError))"

section \<open>The session store (session_manager.py)\<close>

text \<open>
  A session is the dictionary that \<open>get_session\<close> creates. An answer is the text of a
  message, which is \<open>None\<close> for a message without text. \<open>created_at\<close> is a clock reading.
\<close>

record session =
  task_description :: pystr
  clarification_questions :: "pystr list"
  answers :: "(pystr, pystr option) pydict"
  recommendations :: json
  current_prompt :: pystr
  created_at :: nat
  edited_count :: int

text \<open>The dialogue states (states.py).\<close>

datatype dialogue_state =
    waiting_for_task_description
  | waiting_for_clarification_answers
  | showing_recommendations
  | waiting_for_recommendation_decision
  | prompt_generated
  | editing_section
  | adding_requirement
  | removing_requirement

text \<open>
  The replies of the handlers below; the texts themselves are templates and emoji, and
  only the kind of the reply and the data put into it are kept. A request is a call of
  a generation entry point of the completion gateway adapter, with its arguments.
\<close>

datatype reply =
    TooShort
  | TaskDescriptionReceived
  | AskQuestions "pystr list"
  | ErrorMessage
  | QuestionsNotFound
  | AnswerAccepted nat nat pystr nat
  | AnswersReceived
  | RecommendationsReady json
  | StartingOver

datatype request =
    QuestionsRequest pystr
  | RecommendationsRequest pystr "(pystr, pystr option) pydict"

text \<open>
  The state the handlers work on: the dictionary of the session manager, the state that
  the dispatcher's FSM storage holds for each user, the replies sent so far and the
  generation requests made so far.
\<close>

record world =
  sessions :: "int \<Rightarrow> session option"
  fsm :: "int \<Rightarrow> dialogue_state option"
  outbox :: "(int \<times> reply) list"
  requests :: "request list"

definition default_session :: "nat \<Rightarrow> session" where
  "default_session now =
     \<lparr>task_description = [], clarification_questions = [], answers = [],
      recommendations = JDict [], current_prompt = [], created_at = now, edited_count = 0\<rparr>"

text \<open>\<open>get_session\<close> returns the stored session, creating it first when it is absent.\<close>

definition get_session :: "int \<Rightarrow> nat \<Rightarrow> world \<Rightarrow> session \<times> world" where
  "get_session user_id now w =
     (case sessions w user_id of
        None \<Rightarrow> (default_session now,
                  w\<lparr>sessions := (sessions w)(user_id \<mapsto> default_session now)\<rparr>)
      | Some s \<Rightarrow> (s, w))"

text \<open>A mutator fetches the session and assigns to one of its entries, in place.\<close>

definition modify_session :: "int \<Rightarrow> nat \<Rightarrow> (session \<Rightarrow> session) \<Rightarrow> world \<Rightarrow> world" where
  "modify_session user_id now f w =
     (case get_session user_id now w of
        (s, w') \<Rightarrow> w'\<lparr>sessions := (sessions w')(user_id \<mapsto> f s)\<rparr>)"

definition update_task_description :: "int \<Rightarrow> pystr \<Rightarrow> nat \<Rightarrow> world \<Rightarrow> world" where
  "update_task_description user_id description now w =
     modify_session user_id now (\<lambda>s. s\<lparr>task_description := description\<rparr>) w"

definition set_clarification_questions :: "int \<Rightarrow> pystr list \<Rightarrow> nat \<Rightarrow> world \<Rightarrow> world" where
  "set_clarification_questions user_id questions now w =
     modify_session user_id now (\<lambda>s. s\<lparr>clarification_questions := questions\<rparr>) w"

definition add_answer :: "int \<Rightarrow> pystr \<Rightarrow> pystr option \<Rightarrow> nat \<Rightarrow> world \<Rightarrow> world" where
  "add_answer user_id question answer now w =
     modify_session user_id now (\<lambda>s. s\<lparr>answers := dict_set question answer (answers s)\<rparr>) w"

definition set_recommendations :: "int \<Rightarrow> json \<Rightarrow> nat \<Rightarrow> world \<Rightarrow> world" where
  "set_recommendations user_id recs now w =
     modify_session user_id now (\<lambda>s. s\<lparr>recommendations := recs\<rparr>) w"

definition clear_session :: "int \<Rightarrow> world \<Rightarrow> world" where
  "clear_session user_id w =
     (if sessions w user_id \<noteq> None then w\<lparr>sessions := (sessions w)(user_id := None)\<rparr> else w)"

section \<open>The handlers (main.py)\<close>

text \<open>\<open>message.answer(...)\<close>, \<open>state.clear()\<close> and \<open>state.set_state(...)\<close>.\<close>

definition answer :: "int \<Rightarrow> reply \<Rightarrow> world \<Rightarrow> world" where
  "answer user_id r w = w\<lparr>outbox := outbox w @ [(user_id, r)]\<rparr>"

definition state_clear :: "int \<Rightarrow> world \<Rightarrow> world" where
  "state_clear user_id w = w\<lparr>fsm := (fsm w)(user_id := None)\<rparr>"

definition set_state :: "int \<Rightarrow> dialogue_state \<Rightarrow> world \<Rightarrow> world" where
  "set_state user_id st w = w\<lparr>fsm := (fsm w)(user_id \<mapsto> st)\<rparr>"

definition cmd_restart :: "int \<Rightarrow> world \<Rightarrow> world" where
  "cmd_restart user_id w =
     answer user_id StartingOver
       (set_state user_id waiting_for_task_description
          (state_clear user_id (clear_session user_id w)))"

text \<open>
  \<open>process_task_description\<close>: the handler of a message in the state
  \<open>waiting_for_task_description\<close>. \<open>api\<close> is the script of the completion service for the
  request this handler makes; every exception of the generation is caught.
\<close>

definition process_task_description ::
  "unicode \<Rightarrow> int \<Rightarrow> pystr option \<Rightarrow> nat \<Rightarrow> (nat \<Rightarrow> 'e outcome) \<Rightarrow> world \<Rightarrow> world" where
  "process_task_description U user_id text now api w =
     (case text of
        None \<Rightarrow> answer user_id TooShort w
      | Some task \<Rightarrow>
          if task = [] \<or> length (py_strip task) < 10 then answer user_id TooShort w
          else
            (let w1 = update_task_description user_id task now w;
                 w2 = answer user_id TaskDescriptionReceived w1;
                 w3 = w2\<lparr>requests := requests w2 @ [QuestionsRequest task]\<rparr>
             in case generate_clarification_questions U api of
                  Inr questions \<Rightarrow>
                    set_state user_id waiting_for_clarification_answers
                      (answer user_id (AskQuestions questions)
                         (set_clarification_questions user_id questions now w3))
                | Inl e \<Rightarrow> answer user_id ErrorMessage w3))"

text \<open>
  The \<open>try\<close> block that \<open>process_clarification_answer\<close> contains twice, word for word:
  the recommendations are generated from the session's task description and answers.
  \<open>answers\<close> is the dictionary object of the session, so it holds the answer that
  \<open>add_answer\<close> has just stored.
\<close>

definition generate_and_show ::
  "int \<Rightarrow> nat \<Rightarrow> (pystr \<Rightarrow> 'e loads_result) \<Rightarrow> (nat \<Rightarrow> 'e outcome) \<Rightarrow> world \<Rightarrow> world" where
  "generate_and_show user_id now json_loads api w =
     (case get_session user_id now w of
        (s, w1) \<Rightarrow>
          (let w2 = w1\<lparr>requests := requests w1 @
                        [RecommendationsRequest (task_description s) (answers s)]\<rparr>
           in case generate_recommendations json_loads api of
                Inr recs \<Rightarrow>
                  set_state user_id showing_recommendations
                    (answer user_id (RecommendationsReady recs)
                       (set_recommendations user_id recs now w2))
              | Inl e \<Rightarrow> answer user_id ErrorMessage w2))"

text \<open>\<open>process_clarification_answer\<close>: the handler of a message in the state
  \<open>waiting_for_clarification_answers\<close>.\<close>

definition process_clarification_answer ::
  "int \<Rightarrow> pystr option \<Rightarrow> nat \<Rightarrow> (pystr \<Rightarrow> 'e loads_result) \<Rightarrow> (nat \<Rightarrow> 'e outcome) \<Rightarrow> world \<Rightarrow> world" where
  "process_clarification_answer user_id text now json_loads api w =
     (case get_session user_id now w of
        (s, w1) \<Rightarrow>
          (let questions = clarification_questions s;
               answered_count = length (answers s)
           in if questions = [] then answer user_id QuestionsNotFound w1
              else if answered_count \<ge> length questions
              then generate_and_show user_id now json_loads api (answer user_id AnswersReceived w1)
              else
                (let current_question = questions ! answered_count;
                     w2 = add_answer user_id current_question text now w1;
                     answered_count = answered_count + 1
                 in if answered_count < length questions
                    then answer user_id
                           (AnswerAccepted answered_count (length questions)
                              (questions ! answered_count) (length questions - answered_count))
                           w2
                    else generate_and_show user_id now json_loads api
                           (answer user_id AnswersReceived w2))))"

section \<open>Vocabulary of the statements and proofs\<close>

text \<open>
  The tables on Basic Latin. On strings of code points below 128 these are the
  interpreter's: the letters \<open>a\<close> .. \<open>z\<close> and \<open>A\<close> .. \<open>Z\<close> are mapped to each other and no
  other code point changes, and the digits are \<open>0\<close> .. \<open>9\<close>. The closed examples below,
  whose strings are all ASCII, are evaluated over them; outside Basic Latin they are not
  the interpreter's tables and nothing is claimed about them.
\<close>

definition ascii_tables :: unicode where
  "ascii_tables =
     \<lparr>toupper_full = (\<lambda>c. [if 97 \<le> c \<and> c \<le> 122 then c - 32 else c]),
      str_lower = map (\<lambda>c. if 65 \<le> c \<and> c \<le> 90 then c + 32 else c),
      char_isdigit = (\<lambda>c. 48 \<le> c \<and> c \<le> 57)\<rparr>"

text \<open>The recognised heading lines of a document, stripped, in their order of appearance.\<close>

definition section_headings :: "unicode \<Rightarrow> pystr \<Rightarrow> pystr list" where
  "section_headings U doc = map py_strip (filter (is_section_heading U) (split_lines doc))"

text \<open>The keys of a dictionary after one more assignment, and the key that an open section
  of the parser will be stored under.\<close>

definition add_key :: "'a list \<Rightarrow> 'a \<Rightarrow> 'a list" where
  "add_key ks k = (if k \<in> set ks then ks else ks @ [k])"

fun cur_keys :: "pystr option \<Rightarrow> pystr list" where
  "cur_keys None = []"
| "cur_keys (Some k) = (if k \<noteq> [] then [k] else [])"

text \<open>The step after the loop of \<open>parse_sections\<close>: the last section is stored.\<close>

definition finish :: "(pystr, pystr) pydict \<times> pystr option \<times> pystr list \<Rightarrow> (pystr, pystr) pydict" where
  "finish st = (case st of (sections, cur, content) \<Rightarrow> save_section cur content sections)"

text \<open>A brace pair: an opening brace with a closing brace somewhere after it.\<close>

definition has_brace_pair :: "pystr \<Rightarrow> bool" where
  "has_brace_pair s \<longleftrightarrow> (\<exists>i j. i < j \<and> j < length s \<and> s ! i = 123 \<and> s ! j = 125)"

text \<open>The text that is handed to \<open>json.loads\<close>: from the first opening brace to the last
  closing brace.\<close>

definition brace_substring :: "pystr \<Rightarrow> pystr" where
  "brace_substring s = py_slice s (py_find 123 s) (py_rfind 125 s + 1)"

text \<open>\<open>recommendations.get(name)\<close>.\<close>

fun field :: "json \<Rightarrow> pystr \<Rightarrow> json option" where
  "field (JDict d) name = map_of d name"
| "field other name = None"

text \<open>The fallback record of the specification, with a given technology stack.\<close>

definition is_fallback :: "json \<Rightarrow> pystr \<Rightarrow> pystr \<Rightarrow> bool" where
  "is_fallback r tech response \<longleftrightarrow>
     field r (ascii ''tech_stack'') = Some (JString tech) \<and>
     field r (ascii ''architecture'') = Some (JString needs_clarification) \<and>
     field r (ascii ''scalability'') = Some (JString needs_clarification) \<and>
     field r (ascii ''compliance'') = Some (JString needs_clarification) \<and>
     field r (ascii ''key_features'') = Some (JList []) \<and>
     field r (ascii ''risks'') = Some (JList []) \<and>
     field r (ascii ''recommendation_summary'') = Some (JString response)"


text \<open>
  A session of user 7 whose question list repeats a question, in the state
  \<open>waiting_for_clarification_answers\<close>; and the handling of a sequence of messages of
  that user, one call of \<open>process_clarification_answer\<close> per message.
\<close>

definition repeated_questions :: "pystr list" where
  "repeated_questions = [ascii ''A?'', ascii ''A?'', ascii ''B?'']"

definition repeated_world :: world where
  "repeated_world =
     \<lparr>sessions = Map.empty(7 \<mapsto> (default_session 0)\<lparr>clarification_questions := repeated_questions\<rparr>),
      fsm = Map.empty(7 \<mapsto> waiting_for_clarification_answers),
      outbox = [], requests = []\<rparr>"

fun answer_all ::
  "pystr option list \<Rightarrow> (pystr \<Rightarrow> 'e loads_result) \<Rightarrow> (nat \<Rightarrow> 'e outcome) \<Rightarrow> world \<Rightarrow> world" where
  "answer_all [] json_loads api w = w"
| "answer_all (text # texts) json_loads api w =
     answer_all texts json_loads api (process_clarification_answer 7 text 0 json_loads api w)"

text \<open>The worlds that \<open>answer_all\<close> reaches from \<open>repeated_world\<close>.\<close>

definition stalled :: "world \<Rightarrow> bool" where
  "stalled w \<longleftrightarrow>
     fsm w 7 = Some waiting_for_clarification_answers \<and> requests w = [] \<and>
     (\<exists>s. sessions w 7 = Some s \<and> clarification_questions s = repeated_questions \<and>
        (answers s = [] \<or> (\<exists>a. answers s = [(ascii ''A?'', a)])))"

text \<open>
  The sections that \<open>parse_sections\<close> returns for a document with a recognised heading:
  every key is a heading line, stripped and without a newline, no line of a body is a
  heading, and the keys are distinct.
\<close>

definition good_key :: "unicode \<Rightarrow> pystr \<Rightarrow> bool" where
  "good_key U k \<longleftrightarrow> is_section_heading U k \<and> py_strip k = k \<and> NL \<notin> set k"

definition good_body :: "unicode \<Rightarrow> pystr \<Rightarrow> bool" where
  "good_body U c \<longleftrightarrow> (\<forall>l\<in>set (split_lines c). \<not> is_section_heading U l)"

definition well_formed_sections :: "unicode \<Rightarrow> (pystr, pystr) pydict \<Rightarrow> bool" where
  "well_formed_sections U S \<longleftrightarrow>
     distinct (dict_keys S) \<and> (\<forall>(k, c)\<in>set S. good_key U k \<and> good_body U c)"

text \<open>The lines that a section contributes to the serialised document, and the sections
  with their bodies stripped.\<close>

definition section_lines :: "pystr \<times> pystr \<Rightarrow> pystr list" where
  "section_lines kc = fst kc # split_lines (snd kc) @ [[]]"

definition strip_bodies :: "(pystr, pystr) pydict \<Rightarrow> (pystr, pystr) pydict" where
  "strip_bodies S = map (\<lambda>(k, c). (k, py_strip c)) S"


text \<open>
  White space has no case: the upper-case mapping of a white-space code point is the code
  point itself. This holds of the interpreter's table; \<open>keep_spaces\<close> makes any table
  satisfy it, and changes nothing in a table that does.
\<close>

definition spaces_kept :: "unicode \<Rightarrow> bool" where
  "spaces_kept U \<longleftrightarrow> (\<forall>c. py_isspace c \<longrightarrow> toupper_full U c = [c])"

definition keep_spaces :: "unicode \<Rightarrow> unicode" where
  "keep_spaces U = U\<lparr>toupper_full := (\<lambda>c. if py_isspace c then [c] else toupper_full U c)\<rparr>"

section \<open>Evaluation\<close>

lemmas str_defs = ascii_def NL_def py_isspace_def ascii_tables_def
  py_upper_def py_lower_def py_lstrip_def py_rstrip_def py_strip_def lstrip_chars_def endswith_def
  split_lines_def join_lines_def

lemmas doc_defs = section_keywords_def full_prompt_key_def is_section_heading_def
  parse_sections_def get_section_list_def dict_keys_def dict_get_def section_headings_def
  serialize_sections_def name_matches_def update_sections_def update_section_def
  requirement_keywords_def is_requirements_key_def find_requirements_section_def
  new_requirements_key_def add_requirement_sections_def add_requirement_to_prompt_def
  remove_requirement_sections_def remove_requirement_from_prompt_def

section \<open>The section list\<close>

lemma dict_keys_set:
  "dict_keys (dict_set k v d) = (if k \<in> set (dict_keys d) then dict_keys d else dict_keys d @ [k])"
  by (induction d) (auto simp: dict_keys_def rev_image_eqI)

lemma startswith_nonempty: "startswith s (p # ps) \<Longrightarrow> s \<noteq> []"
  by (cases s) auto

lemma heading_strip_nonempty: "is_section_heading U line \<Longrightarrow> py_strip line \<noteq> []"
  by (auto simp: is_section_heading_def ascii_def dest: startswith_nonempty)

lemma keys_save_section:
  "dict_keys (save_section cur content S) = foldl add_key (dict_keys S) (cur_keys cur)"
  by (cases cur) (auto simp: dict_keys_set add_key_def)

lemma keys_parse_loop:
  "dict_keys (finish (parse_loop U lines S cur content)) =
   foldl add_key (dict_keys S) (cur_keys cur @ map py_strip (filter (is_section_heading U) lines))"
proof (induction lines arbitrary: S cur content)
  case Nil
  then show ?case by (simp add: finish_def keys_save_section)
next
  case (Cons line lines)
  show ?case
  proof (cases "is_section_heading U line")
    case True
    then show ?thesis
      using Cons.IH [of "save_section cur content S" "Some (py_strip line)" "[]"]
      by (simp add: keys_save_section heading_strip_nonempty)
  next
    case False
    then show ?thesis
      using Cons.IH [of S cur "if truthy cur then content @ [line] else content"]
      by simp
  qed
qed

lemma parse_sections_finish:
  "parse_sections U doc =
     (if finish (parse_loop U (split_lines doc) [] None []) = [] then [(full_prompt_key, doc)]
      else finish (parse_loop U (split_lines doc) [] None []))"
  by (simp add: parse_sections_def finish_def Let_def split: prod.splits)

lemma remdups_skip: "h \<in> set ys \<Longrightarrow> remdups (xs @ h # ys) = remdups (xs @ ys)"
  by (induction xs) auto

lemma foldl_add_key:
  "distinct acc \<Longrightarrow> foldl add_key acc hs = rev (remdups (rev (acc @ hs)))"
proof (induction hs arbitrary: acc)
  case Nil
  then show ?case by (simp add: distinct_remdups_id)
next
  case (Cons h hs)
  have d: "distinct (add_key acc h)" using Cons.prems by (simp add: add_key_def)
  show ?case
  proof (cases "h \<in> set acc")
    case True
    then show ?thesis using Cons.IH [OF d] by (simp add: add_key_def remdups_skip)
  next
    case False
    then show ?thesis using Cons.IH [OF d] by (simp add: add_key_def)
  qed
qed

lemma keys_finish_parse:
  "dict_keys (finish (parse_loop U (split_lines doc) [] None [])) =
   rev (remdups (rev (section_headings U doc)))"
  using keys_parse_loop [of U "split_lines doc" "[]" None "[]"]
    foldl_add_key [of "[]" "section_headings U doc"]
  by (simp add: dict_keys_def section_headings_def)

lemma finish_parse_empty:
  "finish (parse_loop U (split_lines doc) [] None []) = [] \<longleftrightarrow> section_headings U doc = []"
proof -
  let ?S = "finish (parse_loop U (split_lines doc) [] None [])"
  have "?S = [] \<longleftrightarrow> dict_keys ?S = []" by (simp add: dict_keys_def)
  also have "\<dots> \<longleftrightarrow> section_headings U doc = []"
    unfolding keys_finish_parse by (metis remdups_eq_nil_iff rev_is_Nil_conv)
  finally show ?thesis .
qed

lemma get_section_list_eq:
  "get_section_list U doc =
     (if section_headings U doc = [] then [full_prompt_key]
      else rev (remdups (rev (section_headings U doc))))"
proof (cases "section_headings U doc = []")
  case True
  then show ?thesis
    by (simp add: get_section_list_def parse_sections_finish finish_parse_empty dict_keys_def)
next
  case False
  then show ?thesis
    by (simp add: get_section_list_def parse_sections_finish finish_parse_empty keys_finish_parse)
qed

text \<open>
  C1, as the claim states it, fails: the document \<open># GOAL / a / # GOAL / b\<close> (four lines)
  has two recognised heading lines, and its section list has one entry, because the
  sections are the keys of a dictionary and the second \<open># GOAL\<close> is the key of the first.
\<close>

theorem C1_duplicate_heading_counterexample:
  "length (filter (is_section_heading ascii_tables) (split_lines (ascii ''# GOAL\<newline>a\<newline># GOAL\<newline>b''))) = 2 \<and>
   get_section_list ascii_tables (ascii ''# GOAL\<newline>a\<newline># GOAL\<newline>b'') = [ascii ''# GOAL'']"
  by (simp add: str_defs doc_defs)

text \<open>
  C1, amended. The section list of a document is the list of its recognised heading
  lines, each stripped of surrounding white space, in order of first appearance, a
  heading text that occurs again being listed once (at its first place); a document
  without a recognised heading has the single entry \<open>full_prompt_key\<close>. In particular
  a document whose N >= 1 recognised headings are pairwise different after stripping
  has exactly N entries, the stripped heading lines in their original order.
\<close>

theorem C1_section_list_headings:
  "get_section_list U doc =
     (if section_headings U doc = [] then [full_prompt_key]
      else rev (remdups (rev (section_headings U doc)))) \<and>
   (section_headings U doc \<noteq> [] \<and> distinct (section_headings U doc) \<longrightarrow>
      get_section_list U doc = section_headings U doc \<and>
      length (get_section_list U doc) = length (filter (is_section_heading U) (split_lines doc)))"
  by (simp add: get_section_list_eq section_headings_def distinct_remdups_id)

theorem C1_section_list_headings_witness:
  "section_headings ascii_tables (ascii ''intro\<newline>  # goal x\<newline>a\<newline># Output\<newline>b\<newline>'') \<noteq> [] \<and>
   distinct (section_headings ascii_tables (ascii ''intro\<newline>  # goal x\<newline>a\<newline># Output\<newline>b\<newline>'')) \<and>
   get_section_list ascii_tables (ascii ''intro\<newline>  # goal x\<newline>a\<newline># Output\<newline>b\<newline>'') =
     [ascii ''# goal x'', ascii ''# Output''] \<and>
   length (filter (is_section_heading ascii_tables)
     (split_lines (ascii ''intro\<newline>  # goal x\<newline>a\<newline># Output\<newline>b\<newline>''))) = 2"
  using C1_section_list_headings [of ascii_tables "ascii ''intro\<newline>  # goal x\<newline>a\<newline># Output\<newline>b\<newline>''"]
  by (simp add: str_defs section_headings_def is_section_heading_def section_keywords_def)

section \<open>The retry policy\<close>

lemmas llm_defs = is_candidate_def split_once_def strip_numbering_def extract_questions_def
  py_find_def py_rfind_def py_slice_def normalize_recommendations_def
  call_with_retry_def MAX_RETRIES_def RETRY_DELAY_def

declare retry_loop.simps [simp del]

lemma retry_step_error:
  "api a = OpenAIError e \<Longrightarrow> int a < max_retries - 1 \<Longrightarrow>
   retry_loop api max_retries a delay slept =
   retry_loop api max_retries (a + 1) (delay * 2) (slept @ [delay])"
  by (subst retry_loop.simps) simp

lemma retry_skip_errors:
  "\<forall>i. a \<le> i \<and> i < a + n \<longrightarrow> (\<exists>e. api i = OpenAIError e) \<Longrightarrow> int (a + n) < max_retries \<Longrightarrow>
   retry_loop api max_retries a delay slept =
   retry_loop api max_retries (a + n) (delay * 2 ^ n) (slept @ map (\<lambda>i. delay * 2 ^ i) [0..<n])"
proof (induction n)
  case 0
  then show ?case by simp
next
  case (Suc n)
  from Suc.prems obtain e where e: "api (a + n) = OpenAIError e"
    by (metis le_add1 lessI add_Suc_right)
  have "retry_loop api max_retries a delay slept =
        retry_loop api max_retries (a + n) (delay * 2 ^ n) (slept @ map (\<lambda>i. delay * 2 ^ i) [0..<n])"
    using Suc.prems by (intro Suc.IH) auto
  also have "\<dots> = retry_loop api max_retries (a + n + 1) (delay * 2 ^ n * 2)
                     ((slept @ map (\<lambda>i. delay * 2 ^ i) [0..<n]) @ [delay * 2 ^ n])"
    using Suc.prems
    by (intro retry_step_error [of api "a + n" e max_retries, OF e]) auto
  finally show ?case by (simp add: mult_ac)
qed

lemma retry_last_attempt:
  assumes "1 \<le> k" "int k \<le> max_retries" "\<forall>i<k - 1. \<exists>e. api i = OpenAIError e"
  shows "call_with_retry d api max_retries =
         retry_loop api max_retries (k - 1) (d * 2 ^ (k - 1)) (map (\<lambda>i. d * 2 ^ i) [0..<k - 1])"
  using retry_skip_errors [of 0 "k - 1" api max_retries d "[]"] assms
  by (simp add: call_with_retry_def)

text \<open>
  C7. Let the attempt budget be at least 1 and the base delay \<open>d\<close>, and let the first
  \<open>k - 1\<close> attempts (\<open>k\<close> within the budget) raise service-reported errors. If
  attempt \<open>k\<close> succeeds, \<open>_call_with_retry\<close> returns its result after exactly \<open>k\<close>
  calls and \<open>k - 1\<close> waits of \<open>d, 2d, 4d, ...\<close>; if attempt \<open>k\<close> is the last of the
  budget and raises a service error too, that error is propagated after exactly
  \<open>max_retries\<close> calls, with no wait after it; if attempt \<open>k\<close> raises another
  exception, that exception is propagated at once, with no further call and no wait
  after it.
\<close>

theorem C7_retry_policy:
  assumes "1 \<le> k" and "int k \<le> max_retries"
    and "\<forall>i<k - 1. \<exists>e. api i = OpenAIError e"
  shows "(api (k - 1) = Returned r \<longrightarrow>
            call_with_retry d api max_retries =
              \<lparr>outcome_of = Inr r, calls = k, sleeps = map (\<lambda>i. d * 2 ^ i) [0..<k - 1]\<rparr>) \<and>
         (api (k - 1) = OpenAIError e \<and> int k = max_retries \<longrightarrow>
            call_with_retry d api max_retries =
              \<lparr>outcome_of = Inl e, calls = k, sleeps = map (\<lambda>i. d * 2 ^ i) [0..<k - 1]\<rparr>) \<and>
         (api (k - 1) = OtherException e \<longrightarrow>
            call_with_retry d api max_retries =
              \<lparr>outcome_of = Inl e, calls = k, sleeps = map (\<lambda>i. d * 2 ^ i) [0..<k - 1]\<rparr>)"
proof -
  have less: "int (k - 1) < max_retries" using assms(1,2) by linarith
  have k: "k - 1 + 1 = k" using assms(1) by simp
  show ?thesis
    unfolding retry_last_attempt [OF assms]
    by (subst retry_loop.simps, subst (2) retry_loop.simps, subst (3) retry_loop.simps)
       (use less k in auto)
qed

theorem C7_retry_policy_witness:
  "call_with_retry 7 (\<lambda>i. if i < 2 then OpenAIError (i + 40) else Returned (Some (ascii ''ok''))) 3 =
     \<lparr>outcome_of = Inr (Some (ascii ''ok'')), calls = 3, sleeps = [7, 14]\<rparr> \<and>
   call_with_retry 7 (\<lambda>i. OpenAIError (i + 40)) 3 =
     \<lparr>outcome_of = Inl (42::nat), calls = 3, sleeps = [7, 14]\<rparr> \<and>
   call_with_retry 7 (\<lambda>i. if i < 1 then OpenAIError (i + 40) else OtherException 99) 3 =
     \<lparr>outcome_of = Inl (99::nat), calls = 2, sleeps = [7]\<rparr>"
proof -
  have u: "[0..<2] = [0, 1]" "[0..<1] = [0]" by (simp_all add: upt_rec)
  have a: "\<forall>i<3 - 1. \<exists>e. (if i < 2 then OpenAIError (i + 40) else Returned (Some (ascii ''ok''))) = OpenAIError (e::nat)"
    by simp
  have b: "\<forall>i<3 - 1. \<exists>e. OpenAIError (i + 40) = OpenAIError (e::nat)"
    by simp
  have c: "\<forall>i<2 - 1. \<exists>e. (if i < 1 then OpenAIError (i + 40) else OtherException 99) = OpenAIError (e::nat)"
    by simp
  show ?thesis
    using C7_retry_policy [of 3 3 "\<lambda>i. if i < 2 then OpenAIError (i + 40) else Returned (Some (ascii ''ok''))" "Some (ascii ''ok'')" 7 0, OF _ _ a]
      C7_retry_policy [of 3 3 "\<lambda>i. OpenAIError (i + 40)" None 7 42, OF _ _ b]
      C7_retry_policy [of 2 3 "\<lambda>i. if i < 1 then OpenAIError (i + 40) else OtherException 99" None 7 99, OF _ _ c]
    by (simp add: u)
qed

section \<open>Extraction of the questions\<close>

text \<open>
  C6. The line \<open>- Is v1.2 ok?\<close> starts with a dash and, once the dash marker is removed,
  is the question \<open>Is v1.2 ok?\<close>, which ends with a question mark. The code removes
  the numbering with \<open>line.split('.', 1)[-1]\<close>, which cuts at the first dot of the line
  wherever it is, so what it extracts is \<open>2 ok?\<close>: a piece of the question, with the
  text before the dot lost. This holds whatever the digit property is, because the line
  starts with a dash.
\<close>

theorem C6_dash_line_with_dot:
  "extract_questions U (ascii ''- Is v1.2 ok?'') = [ascii ''2 ok?'']"
  by (simp add: str_defs llm_defs)

theorem C6_dash_line_with_dot_witness:
  "extract_questions ascii_tables (ascii ''- Is v1.2 ok?'') = [ascii ''2 ok?''] \<and>
   [ascii ''2 ok?''] \<noteq> [ascii ''Is v1.2 ok?'']"
  using C6_dash_line_with_dot [of ascii_tables]
  by (simp add: ascii_def)

section \<open>The recommendation normaliser\<close>

lemma first_index_le: "i < length s \<Longrightarrow> s ! i = c \<Longrightarrow> length (takeWhile (\<lambda>x. x \<noteq> c) s) \<le> i"
proof (rule ccontr)
  assume i: "i < length s" "s ! i = c" and "\<not> length (takeWhile (\<lambda>x. x \<noteq> c) s) \<le> i"
  then have l: "i < length (takeWhile (\<lambda>x. x \<noteq> c) s)" by simp
  then have "takeWhile (\<lambda>x. x \<noteq> c) s ! i \<in> set (takeWhile (\<lambda>x. x \<noteq> c) s)" by simp
  then have "takeWhile (\<lambda>x. x \<noteq> c) s ! i \<noteq> c" by (auto dest: set_takeWhileD)
  with l i show False by (simp add: takeWhile_nth)
qed

lemma first_index_nth:
  "c \<in> set s \<Longrightarrow> length (takeWhile (\<lambda>x. x \<noteq> c) s) < length s \<and> s ! length (takeWhile (\<lambda>x. x \<noteq> c) s) = c"
proof -
  assume c: "c \<in> set s"
  have "takeWhile (\<lambda>x. x \<noteq> c) s \<noteq> s" using c by auto
  then have "length (takeWhile (\<lambda>x. x \<noteq> c) s) \<noteq> length s"
    by (metis takeWhile_eq_take take_all order_refl)
  then have l: "length (takeWhile (\<lambda>x. x \<noteq> c) s) < length s"
    using length_takeWhile_le [of "\<lambda>x. x \<noteq> c" s] by linarith
  from nth_length_takeWhile [OF l] l show ?thesis by simp
qed

lemma py_find_pair: "(py_find 123 s \<noteq> - 1 \<and> py_rfind 125 s + 1 > py_find 123 s) \<longleftrightarrow> has_brace_pair s"
proof
  assume a: "py_find 123 s \<noteq> - 1 \<and> py_rfind 125 s + 1 > py_find 123 s"
  then have o: "123 \<in> set s" by (auto simp: py_find_def split: if_splits)
  with a have c: "125 \<in> set s" by (auto simp: py_find_def py_rfind_def split: if_splits)
  let ?i = "length (takeWhile (\<lambda>x. x \<noteq> 123) s)"
  let ?r = "length (takeWhile (\<lambda>x. x \<noteq> 125) (rev s))"
  from o have i: "?i < length s" "s ! ?i = 123" using first_index_nth [of 123 s] by auto
  from c have r: "?r < length s" "rev s ! ?r = 125" using first_index_nth [of 125 "rev s"] by auto
  let ?j = "length s - 1 - ?r"
  have j: "?j < length s" "s ! ?j = 125" using r by (auto simp: rev_nth)
  from a o c have "?i \<le> ?j" using r(1) by (simp add: py_find_def py_rfind_def)
  moreover have "?i \<noteq> ?j" using i(2) j(2) by auto
  ultimately have "?i < ?j" by simp
  with i j show "has_brace_pair s" unfolding has_brace_pair_def by blast
next
  assume "has_brace_pair s"
  then obtain i j where ij: "i < j" "j < length s" "s ! i = 123" "s ! j = 125"
    unfolding has_brace_pair_def by blast
  then have o: "123 \<in> set s" and c: "125 \<in> set s" by (auto simp: in_set_conv_nth intro: exI [of _ i] exI [of _ j])
  have f: "length (takeWhile (\<lambda>x. x \<noteq> 123) s) \<le> i" using ij by (intro first_index_le) auto
  have "rev s ! (length s - 1 - j) = 125" using ij by (simp add: rev_nth)
  then have "length (takeWhile (\<lambda>x. x \<noteq> 125) (rev s)) \<le> length s - 1 - j"
    using ij by (intro first_index_le) auto
  with f ij o c show "py_find 123 s \<noteq> - 1 \<and> py_rfind 125 s + 1 > py_find 123 s"
    by (simp add: py_find_def py_rfind_def)
qed

lemma normalize_eq:
  "normalize_recommendations json_loads response =
     (if has_brace_pair response
      then (case json_loads (brace_substring response) of
              Loaded parsed \<Rightarrow> Inr parsed
            | JSONDecodeError \<Rightarrow>
                Inr (JDict [(ascii ''tech_stack'', JString needs_clarification),
                            (ascii ''architecture'', JString needs_clarification),
                            (ascii ''key_features'', JList []),
                            (ascii ''scalability'', JString needs_clarification),
                            (ascii ''compliance'', JString needs_clarification),
                            (ascii ''risks'', JList []),
                            (ascii ''recommendation_summary'', JString response)])
            | LoadsRaised e \<Rightarrow> Inl e)
      else Inr (JDict [(ascii ''tech_stack'', JString (take 200 response)),
                       (ascii ''architecture'', JString needs_clarification),
                       (ascii ''key_features'', JList []),
                       (ascii ''scalability'', JString needs_clarification),
                       (ascii ''compliance'', JString needs_clarification),
                       (ascii ''risks'', JList []),
                       (ascii ''recommendation_summary'', JString response)]))"
  by (simp add: normalize_recommendations_def Let_def py_find_pair [symmetric] brace_substring_def)

text \<open>
  C5, as the claim states it, fails on the second of its two cases: for the response
  \<open>{x}\<close>, whose brace-delimited text \<open>json.loads\<close> rejects with \<open>JSONDecodeError\<close>, the
  record's \<open>tech_stack\<close> is the placeholder and not the first 200 characters of the
  response.
\<close>

theorem C5_parse_failure_counterexample:
  "has_brace_pair (ascii ''{x}'') \<and> brace_substring (ascii ''{x}'') = ascii ''{x}'' \<and>
   map_sum id (\<lambda>r. field r (ascii ''tech_stack''))
     (normalize_recommendations
        (\<lambda>text. if text = ascii ''{x}'' then JSONDecodeError else LoadsRaised (0::nat))
        (ascii ''{x}'')) =
     Inr (Some (JString needs_clarification)) \<and>
   needs_clarification \<noteq> take 200 (ascii ''{x}'')"
  by (simp add: py_find_pair [symmetric] brace_substring_def str_defs llm_defs
      needs_clarification_def)

text \<open>
  C5, amended. A response without a brace pair yields the fallback record whose
  \<open>tech_stack\<close> is the first 200 characters of the response (all of it if shorter). For a
  response with a brace pair, the text from the first opening brace to the last closing
  brace is given to \<open>json.loads\<close>: if that raises \<open>JSONDecodeError\<close>, the result is the
  fallback record whose \<open>tech_stack\<close> is the placeholder; if it raises another exception,
  no record is returned and the exception leaves the normaliser and
  \<open>generate_recommendations\<close>; if it returns a value, that value is the result. In both
  fallback records \<open>architecture\<close>, \<open>scalability\<close> and \<open>compliance\<close> are the placeholder,
  \<open>key_features\<close> and \<open>risks\<close> are empty and \<open>recommendation_summary\<close> is the whole
  response.
\<close>

theorem C5_fallback_records:
  "(\<not> has_brace_pair response \<longrightarrow>
      (\<exists>r. normalize_recommendations json_loads response = Inr r \<and>
           is_fallback r (take 200 response) response)) \<and>
   (has_brace_pair response \<and> json_loads (brace_substring response) = JSONDecodeError \<longrightarrow>
      (\<exists>r. normalize_recommendations json_loads response = Inr r \<and>
           is_fallback r needs_clarification response)) \<and>
   (has_brace_pair response \<and> json_loads (brace_substring response) = LoadsRaised e \<longrightarrow>
      normalize_recommendations json_loads response = Inl e \<and>
      (api 0 = Returned (Some response) \<and> response \<noteq> [] \<longrightarrow>
         generate_recommendations json_loads api = Inl (Propagated e))) \<and>
   (has_brace_pair response \<and> json_loads (brace_substring response) = Loaded v \<longrightarrow>
      normalize_recommendations json_loads response = Inr v)"
  by (simp add: normalize_eq is_fallback_def ascii_def generate_recommendations_def
      call_with_retry_def MAX_RETRIES_def retry_loop.simps)

theorem C5_fallback_records_witness:
  "\<not> has_brace_pair (ascii ''} use Postgres {'') \<and>
   (\<exists>r. normalize_recommendations (\<lambda>text. JSONDecodeError :: nat loads_result)
          (ascii ''} use Postgres {'') = Inr r \<and>
        is_fallback r (ascii ''} use Postgres {'') (ascii ''} use Postgres {'')) \<and>
   has_brace_pair (ascii ''a {x} b'') \<and> brace_substring (ascii ''a {x} b'') = ascii ''{x}'' \<and>
   (\<exists>r. normalize_recommendations (\<lambda>text. JSONDecodeError :: nat loads_result)
          (ascii ''a {x} b'') = Inr r \<and>
        is_fallback r needs_clarification (ascii ''a {x} b'')) \<and>
   normalize_recommendations (\<lambda>text. LoadsRaised (4::nat)) (ascii ''a {x} b'') = Inl 4 \<and>
   generate_recommendations (\<lambda>text. LoadsRaised (4::nat))
     (\<lambda>attempt. Returned (Some (ascii ''a {x} b''))) = Inl (Propagated 4) \<and>
   normalize_recommendations (\<lambda>text. Loaded (JDict []) :: nat loads_result) (ascii ''a {x} b'') =
     Inr (JDict [])"
proof -
  have n: "\<not> has_brace_pair (ascii ''} use Postgres {'')"
    by (simp add: py_find_pair [symmetric] str_defs llm_defs)
  have p: "has_brace_pair (ascii ''a {x} b'')"
    by (simp add: py_find_pair [symmetric] str_defs llm_defs)
  have b: "brace_substring (ascii ''a {x} b'') = ascii ''{x}''"
    by (simp add: brace_substring_def str_defs llm_defs)
  have t: "take 200 (ascii ''} use Postgres {'') = ascii ''} use Postgres {''"
    by (simp add: ascii_def)
  have ne: "ascii ''a {x} b'' \<noteq> []"
    by (simp add: ascii_def)
  show ?thesis
    using C5_fallback_records [of "ascii ''} use Postgres {''" "\<lambda>text. JSONDecodeError :: nat loads_result"
        0 "\<lambda>attempt. Returned None" "JNull"]
      C5_fallback_records [of "ascii ''a {x} b''" "\<lambda>text. JSONDecodeError :: nat loads_result"
        0 "\<lambda>attempt. Returned None" "JNull"]
      C5_fallback_records [of "ascii ''a {x} b''" "\<lambda>text. LoadsRaised (4::nat)"
        4 "\<lambda>attempt. Returned (Some (ascii ''a {x} b''))" "JNull"]
      C5_fallback_records [of "ascii ''a {x} b''" "\<lambda>text. Loaded (JDict []) :: nat loads_result"
        0 "\<lambda>attempt. Returned None" "JDict []"]
      n p b t ne
    by simp
qed

section \<open>The session store and the dialogue\<close>

lemmas session_defs = default_session_def get_session_def modify_session_def
  update_task_description_def set_clarification_questions_def add_answer_def
  set_recommendations_def clear_session_def answer_def state_clear_def set_state_def
  cmd_restart_def process_task_description_def generate_and_show_def
  process_clarification_answer_def

text \<open>
  C9, as the claim states it, fails: the dialogue state is not part of the session and
  \<open>clear_session\<close> does not touch it. User 7 below has a stored session and is in the
  state \<open>editing_section\<close>; after \<open>clear_session\<close> the session is gone and the dialogue
  state is still \<open>editing_section\<close>.
\<close>

theorem C9_dialogue_state_counterexample:
  "sessions (clear_session 7
      \<lparr>sessions = Map.empty(7 \<mapsto> (default_session 3)\<lparr>task_description := ascii ''a chat bot'',
           current_prompt := ascii ''# GOAL'', edited_count := 2\<rparr>),
       fsm = Map.empty(7 \<mapsto> editing_section), outbox = [], requests = []\<rparr>) 7 = None \<and>
   fsm (clear_session 7
      \<lparr>sessions = Map.empty(7 \<mapsto> (default_session 3)\<lparr>task_description := ascii ''a chat bot'',
           current_prompt := ascii ''# GOAL'', edited_count := 2\<rparr>),
       fsm = Map.empty(7 \<mapsto> editing_section), outbox = [], requests = []\<rparr>) 7 =
     Some editing_section"
  by (simp add: clear_session_def)

text \<open>
  C9, amended. \<open>clear_session\<close> removes the user's session record from the store and
  changes nothing else: the sessions of the other users, the dialogue states (which the
  dispatcher's FSM storage holds, for this user too), the replies and the requests are
  as before. The \<open>get_session\<close> that follows returns a fresh default session (empty
  task description, no questions, no answers, empty recommendations, empty current
  prompt, \<open>edited_count\<close> 0, created at the time of that call) and stores it.
\<close>

theorem C9_clear_session_frame:
  "sessions (clear_session user_id w) = (sessions w)(user_id := None) \<and>
   fsm (clear_session user_id w) = fsm w \<and>
   outbox (clear_session user_id w) = outbox w \<and>
   requests (clear_session user_id w) = requests w \<and>
   fst (get_session user_id now (clear_session user_id w)) =
     \<lparr>task_description = [], clarification_questions = [], answers = [],
      recommendations = JDict [], current_prompt = [], created_at = now, edited_count = 0\<rparr> \<and>
   sessions (snd (get_session user_id now (clear_session user_id w))) =
     (sessions w)(user_id \<mapsto>
       \<lparr>task_description = [], clarification_questions = [], answers = [],
        recommendations = JDict [], current_prompt = [], created_at = now, edited_count = 0\<rparr>) \<and>
   fsm (snd (get_session user_id now (clear_session user_id w))) = fsm w"
  by (auto simp: clear_session_def get_session_def default_session_def)

theorem C9_clear_session_frame_witness:
  "fsm (clear_session 7
      \<lparr>sessions = Map.empty(7 \<mapsto> (default_session 3)\<lparr>task_description := ascii ''a chat bot'',
           current_prompt := ascii ''# GOAL'', edited_count := 2\<rparr>),
       fsm = Map.empty(7 \<mapsto> editing_section), outbox = [], requests = []\<rparr>) =
     Map.empty(7 \<mapsto> editing_section) \<and>
   sessions (clear_session 7
      \<lparr>sessions = Map.empty(7 \<mapsto> (default_session 3)\<lparr>task_description := ascii ''a chat bot'',
           current_prompt := ascii ''# GOAL'', edited_count := 2\<rparr>),
       fsm = Map.empty(7 \<mapsto> editing_section), outbox = [], requests = []\<rparr>) = Map.empty \<and>
   fst (get_session 7 9 (clear_session 7
      \<lparr>sessions = Map.empty(7 \<mapsto> (default_session 3)\<lparr>task_description := ascii ''a chat bot'',
           current_prompt := ascii ''# GOAL'', edited_count := 2\<rparr>),
       fsm = Map.empty(7 \<mapsto> editing_section), outbox = [], requests = []\<rparr>)) =
     \<lparr>task_description = [], clarification_questions = [], answers = [],
      recommendations = JDict [], current_prompt = [], created_at = 9, edited_count = 0\<rparr>"
  using C9_clear_session_frame [of 7
      "\<lparr>sessions = Map.empty(7 \<mapsto> (default_session 3)\<lparr>task_description := ascii ''a chat bot'',
           current_prompt := ascii ''# GOAL'', edited_count := 2\<rparr>),
       fsm = Map.empty(7 \<mapsto> editing_section), outbox = [], requests = []\<rparr>" 9]
  by simp

text \<open>
  C8, as the claim states it, fails when the generation of the questions raises: the
  description below has 16 characters after stripping, the completion service raises on
  the first attempt, and the state stays \<open>waiting_for_task_description\<close>.
\<close>

theorem C8_generation_failure_counterexample:
  "length (py_strip (ascii ''build a chat bot  '')) \<ge> 10 \<and>
   fsm (process_task_description ascii_tables 7 (Some (ascii ''build a chat bot  '')) 1
          (\<lambda>attempt. OtherException (0::nat))
          \<lparr>sessions = Map.empty, fsm = Map.empty(7 \<mapsto> waiting_for_task_description),
           outbox = [], requests = []\<rparr>) 7
     = Some waiting_for_task_description"
  by (simp add: session_defs generate_clarification_questions_def llm_defs str_defs
      retry_loop.simps Let_def)

text \<open>
  C8, amended. In \<open>process_task_description\<close>, a message without text or with a text
  whose stripped length is below 10 changes neither the sessions nor the dialogue state
  and is answered with the validation error. A text of stripped length at least 10 is
  recorded as the task description and a question request is made; if the generation
  returns questions, they are stored and the state becomes
  \<open>waiting_for_clarification_answers\<close>; if the generation raises, the dialogue state is
  unchanged and the error message is sent.
\<close>

theorem C8_task_description:
  "((message_text = None \<or> (\<exists>task. message_text = Some task \<and> length (py_strip task) < 10)) \<longrightarrow>
      process_task_description U user_id message_text now api w =
        w\<lparr>outbox := outbox w @ [(user_id, TooShort)]\<rparr>) \<and>
   (message_text = Some task \<and> length (py_strip task) \<ge> 10 \<longrightarrow>
      map_option task_description (sessions (process_task_description U user_id message_text now api w) user_id)
        = Some task \<and>
      requests (process_task_description U user_id message_text now api w) =
        requests w @ [QuestionsRequest task]) \<and>
   (message_text = Some task \<and> length (py_strip task) \<ge> 10 \<and>
    generate_clarification_questions U api = Inr questions \<longrightarrow>
      map_option clarification_questions
        (sessions (process_task_description U user_id message_text now api w) user_id) = Some questions \<and>
      fsm (process_task_description U user_id message_text now api w) user_id =
        Some waiting_for_clarification_answers) \<and>
   (message_text = Some task \<and> length (py_strip task) \<ge> 10 \<and>
    generate_clarification_questions U api = Inl e \<longrightarrow>
      fsm (process_task_description U user_id message_text now api w) = fsm w \<and>
      last (outbox (process_task_description U user_id message_text now api w)) = (user_id, ErrorMessage))"
proof -
  have s: "py_strip [] = []" by (simp add: str_defs)
  show ?thesis
    by (cases "sessions w user_id")
       (auto simp: session_defs Let_def s split: sum.splits)
qed

theorem C8_task_description_witness:
  "process_task_description ascii_tables 7 (Some (ascii ''  a bot   '')) 2
       (\<lambda>attempt. Returned (Some (ascii ''1. Who uses it?'')) :: nat outcome)
       \<lparr>sessions = Map.empty, fsm = Map.empty(7 \<mapsto> waiting_for_task_description),
        outbox = [], requests = []\<rparr> =
     \<lparr>sessions = Map.empty, fsm = Map.empty(7 \<mapsto> waiting_for_task_description),
      outbox = [(7, TooShort)], requests = []\<rparr> \<and>
   fsm (process_task_description ascii_tables 7 (Some (ascii ''build a chat bot'')) 2
       (\<lambda>attempt. Returned (Some (ascii ''1. Who uses it?'')) :: nat outcome)
       \<lparr>sessions = Map.empty, fsm = Map.empty(7 \<mapsto> waiting_for_task_description),
        outbox = [], requests = []\<rparr>) 7 = Some waiting_for_clarification_answers \<and>
   map_option clarification_questions
     (sessions (process_task_description ascii_tables 7 (Some (ascii ''build a chat bot'')) 2
       (\<lambda>attempt. Returned (Some (ascii ''1. Who uses it?'')) :: nat outcome)
       \<lparr>sessions = Map.empty, fsm = Map.empty(7 \<mapsto> waiting_for_task_description),
        outbox = [], requests = []\<rparr>) 7) = Some [ascii ''Who uses it?''] \<and>
   last (outbox (process_task_description ascii_tables 7 (Some (ascii ''build a chat bot'')) 2
       (\<lambda>attempt. OpenAIError (5::nat))
       \<lparr>sessions = Map.empty, fsm = Map.empty(7 \<mapsto> waiting_for_task_description),
        outbox = [], requests = []\<rparr>)) = (7, ErrorMessage)"
proof -
  let ?w = "\<lparr>sessions = Map.empty, fsm = Map.empty(7 \<mapsto> waiting_for_task_description),
             outbox = [], requests = []\<rparr>"
  have short: "length (py_strip (ascii ''  a bot   '')) < 10"
    by (simp add: str_defs)
  have long: "length (py_strip (ascii ''build a chat bot'')) \<ge> 10"
    by (simp add: str_defs)
  have ok: "generate_clarification_questions ascii_tables (\<lambda>attempt. Returned (Some (ascii ''1. Who uses it?'')) :: nat outcome)
              = Inr [ascii ''Who uses it?'']"
    by (simp add: generate_clarification_questions_def llm_defs str_defs retry_loop.simps)
  have bad: "generate_clarification_questions ascii_tables (\<lambda>attempt. OpenAIError (5::nat)) = Inl (Propagated 5)"
    by (simp add: generate_clarification_questions_def llm_defs retry_loop.simps)
  show ?thesis
    using C8_task_description [of "Some (ascii ''  a bot   '')" ascii_tables 7 2
        "\<lambda>attempt. Returned (Some (ascii ''1. Who uses it?''))" ?w "ascii ''  a bot   ''"
        "[]" "Propagated (5::nat)"]
      C8_task_description [of "Some (ascii ''build a chat bot'')" ascii_tables 7 2
        "\<lambda>attempt. Returned (Some (ascii ''1. Who uses it?''))" ?w "ascii ''build a chat bot''"
        "[ascii ''Who uses it?'']" "Propagated (5::nat)"]
      C8_task_description [of "Some (ascii ''build a chat bot'')" ascii_tables 7 2
        "\<lambda>attempt. OpenAIError 5" ?w "ascii ''build a chat bot''" "[]" "Propagated (5::nat)"]
      short long ok bad
    by simp
qed

lemma dict_set_distinct_keys:
  "distinct (dict_keys d) \<Longrightarrow> distinct (dict_keys (dict_set k v d))"
  by (simp add: dict_keys_set)

lemma stalled_step:
  "stalled w \<Longrightarrow> stalled (process_clarification_answer 7 text now json_loads api w)"
  by (auto simp: stalled_def repeated_questions_def session_defs Let_def ascii_def)

lemma stalled_answer_all: "stalled w \<Longrightarrow> stalled (answer_all texts json_loads api w)"
  by (induction texts arbitrary: w) (simp_all add: stalled_step)

lemma stalled_step_keys:
  "stalled w \<Longrightarrow>
   map_option (\<lambda>s. dict_keys (answers s))
     (sessions (process_clarification_answer 7 message_text now json_loads api w) 7) =
   Some [ascii ''A?'']"
  by (auto simp: stalled_def repeated_questions_def session_defs Let_def ascii_def dict_keys_def)

lemma answer_all_snoc:
  "answer_all (texts @ [message_text]) json_loads api w =
   process_clarification_answer 7 message_text 0 json_loads api (answer_all texts json_loads api w)"
  by (induction texts arbitrary: w) simp_all

text \<open>
  C10. With the questions \<open>A?\<close>, \<open>A?\<close>, \<open>B?\<close> the dialogue never leaves
  \<open>waiting_for_clarification_answers\<close> and never requests recommendations, whatever
  messages the user sends and however many: every message is stored as the answer to
  \<open>A?\<close>, the only key the answers ever have.
\<close>

theorem C10_repeated_question_stalls:
  "fsm (answer_all texts json_loads api repeated_world) 7 = Some waiting_for_clarification_answers \<and>
   requests (answer_all texts json_loads api repeated_world) = [] \<and>
   map_option (\<lambda>s. dict_keys (answers s))
     (sessions (answer_all (texts @ [message_text]) json_loads api repeated_world) 7) =
     Some [ascii ''A?'']"
proof -
  have r: "stalled repeated_world"
    by (simp add: stalled_def repeated_world_def default_session_def)
  have a: "stalled (answer_all texts json_loads api repeated_world)"
    by (rule stalled_answer_all [OF r])
  show ?thesis
    using a stalled_step_keys [OF a, of message_text 0 json_loads api]
    by (simp add: stalled_def answer_all_snoc)
qed

theorem C10_repeated_question_stalls_witness:
  "fsm (answer_all [Some (ascii ''x''), Some (ascii ''y''), Some (ascii ''z'')] (\<lambda>t. JSONDecodeError)
          (\<lambda>attempt. Returned (Some (ascii ''ok'')) :: nat outcome) repeated_world) 7 =
     Some waiting_for_clarification_answers \<and>
   requests (answer_all [Some (ascii ''x''), Some (ascii ''y''), Some (ascii ''z'')] (\<lambda>t. JSONDecodeError)
          (\<lambda>attempt. Returned (Some (ascii ''ok'')) :: nat outcome) repeated_world) = [] \<and>
   map_option answers
     (sessions (answer_all [Some (ascii ''x''), Some (ascii ''y''), Some (ascii ''z'')] (\<lambda>t. JSONDecodeError)
          (\<lambda>attempt. Returned (Some (ascii ''ok'')) :: nat outcome) repeated_world) 7) =
     Some [(ascii ''A?'', Some (ascii ''z''))]"
  using C10_repeated_question_stalls [of "[Some (ascii ''x''), Some (ascii ''y''), Some (ascii ''z'')]"
      "\<lambda>t. JSONDecodeError" "\<lambda>attempt. Returned (Some (ascii ''ok''))" "None"]
  by (simp add: repeated_world_def repeated_questions_def session_defs Let_def ascii_def)

section \<open>Lines, joining and stripping\<close>

lemma split_on_nonempty: "split_on sep s \<noteq> []"
  by (induction s) (auto split: list.splits)

lemma split_on_append: "split_on sep (a @ sep # b) = split_on sep a @ split_on sep b"
  by (induction a) (auto split: list.splits simp: split_on_nonempty)

lemma split_on_no_sep: "sep \<notin> set s \<Longrightarrow> split_on sep s = [s]"
  by (induction s) auto

lemma split_on_lines_no_sep: "l \<in> set (split_on sep s) \<Longrightarrow> sep \<notin> set l"
  by (induction s arbitrary: l) (auto split: list.splits if_splits)

lemma join_with_Cons: "ls \<noteq> [] \<Longrightarrow> join_with sep (x # ls) = x @ sep @ join_with sep ls"
  by (cases ls) auto

lemma split_join_chunks:
  "chunks \<noteq> [] \<Longrightarrow> split_lines (join_lines chunks) = concat (map split_lines chunks)"
proof (induction chunks)
  case Nil
  then show ?case by simp
next
  case (Cons x xs)
  show ?case
  proof (cases "xs = []")
    case True
    then show ?thesis by (simp add: join_lines_def)
  next
    case False
    then show ?thesis
      using Cons.IH
      by (simp add: join_lines_def split_lines_def join_with_Cons split_on_append)
  qed
qed

lemma split_join:
  "ls \<noteq> [] \<Longrightarrow> \<forall>l\<in>set ls. NL \<notin> set l \<Longrightarrow> split_lines (join_lines ls) = ls"
proof -
  assume a: "ls \<noteq> []" "\<forall>l\<in>set ls. NL \<notin> set l"
  have "concat (map split_lines ls) = ls"
    using a(2) by (induction ls) (auto simp: split_lines_def split_on_no_sep)
  with a(1) show ?thesis by (simp add: split_join_chunks)
qed

lemma join_split: "join_lines (split_lines s) = s"
proof (induction s)
  case Nil
  then show ?case by (simp add: join_lines_def split_lines_def)
next
  case (Cons c s)
  obtain l ls where l: "split_on NL s = l # ls"
    using split_on_nonempty [of NL s] by (cases "split_on NL s") auto
  show ?case
    using Cons l split_on_nonempty [of NL s]
    by (cases ls) (auto simp: join_lines_def split_lines_def join_with_Cons)
qed

lemma space_NL: "py_isspace NL"
  by (simp add: py_isspace_def NL_def)

lemma lstrip_Cons_space: "py_isspace c \<Longrightarrow> py_lstrip (c # s) = py_lstrip s"
  by (simp add: py_lstrip_def)

lemma rstrip_snoc_space: "py_isspace c \<Longrightarrow> py_rstrip (s @ [c]) = py_rstrip s"
  by (simp add: py_rstrip_def)

lemma strip_Cons_space: "py_isspace c \<Longrightarrow> py_strip (c # s) = py_strip s"
  by (simp add: py_strip_def py_lstrip_def)

lemma strip_snoc_space: "py_isspace c \<Longrightarrow> py_strip (s @ [c]) = py_strip s"
  by (cases "\<forall>x\<in>set s. py_isspace x")
     (auto simp: py_strip_def py_lstrip_def py_rstrip_def dropWhile_append dest: set_dropWhileD)

lemma strip_append_spaces: "\<forall>x\<in>set ws. py_isspace x \<Longrightarrow> py_strip (s @ ws) = py_strip s"
proof (induction ws rule: rev_induct)
  case Nil
  then show ?case by simp
next
  case (snoc x xs)
  then show ?case using strip_snoc_space [of x "s @ xs"] by simp
qed

lemma rstrip_ends:
  "py_rstrip s = [] \<or> \<not> py_isspace (last (py_rstrip s))"
proof (cases "dropWhile py_isspace (rev s)")
  case Nil
  then show ?thesis by (simp add: py_rstrip_def)
next
  case (Cons a as)
  then have "\<not> py_isspace a" using hd_dropWhile [of py_isspace "rev s"] by auto
  with Cons show ?thesis by (simp add: py_rstrip_def)
qed

lemma rstrip_stripped: "s = [] \<or> \<not> py_isspace (last s) \<Longrightarrow> py_rstrip s = s"
  by (cases s rule: rev_cases) (auto simp: py_rstrip_def)

lemma lstrip_stripped: "s = [] \<or> \<not> py_isspace (hd s) \<Longrightarrow> py_lstrip s = s"
  by (cases s) (auto simp: py_lstrip_def)

lemma lstrip_ends: "py_lstrip s = [] \<or> \<not> py_isspace (hd (py_lstrip s))"
  using hd_dropWhile [of py_isspace s] by (auto simp: py_lstrip_def)

lemma rstrip_hd: "py_rstrip s \<noteq> [] \<Longrightarrow> hd (py_rstrip s) = hd s"
proof (induction s rule: rev_induct)
  case Nil
  then show ?case by (simp add: py_rstrip_def)
next
  case (snoc x xs)
  show ?case
  proof (cases "py_isspace x")
    case True
    with snoc show ?thesis by (cases xs) (auto simp: py_rstrip_def)
  next
    case False
    then show ?thesis by (simp add: py_rstrip_def)
  qed
qed

lemma strip_ends:
  "py_strip s = [] \<or> (\<not> py_isspace (hd (py_strip s)) \<and> \<not> py_isspace (last (py_strip s)))"
proof (cases "py_strip s = []")
  case True
  then show ?thesis by simp
next
  case False
  then have l: "py_lstrip s \<noteq> []" by (auto simp: py_strip_def py_rstrip_def)
  have "hd (py_strip s) = hd (py_lstrip s)"
    using False rstrip_hd [of "py_lstrip s"] by (simp add: py_strip_def)
  then have "\<not> py_isspace (hd (py_strip s))" using l lstrip_ends [of s] by auto
  moreover have "\<not> py_isspace (last (py_strip s))"
    using False rstrip_ends [of "py_lstrip s"] by (simp add: py_strip_def)
  ultimately show ?thesis by simp
qed

lemma strip_stripped:
  "s = [] \<or> (\<not> py_isspace (hd s) \<and> \<not> py_isspace (last s)) \<Longrightarrow> py_strip s = s"
  by (auto simp: py_strip_def lstrip_stripped rstrip_stripped)

lemma strip_idem: "py_strip (py_strip s) = py_strip s"
  by (rule strip_stripped) (rule strip_ends)

lemma strip_Nil: "py_strip [] = []"
  by (simp add: py_strip_def py_lstrip_def py_rstrip_def)

lemma set_strip: "set (py_strip s) \<subseteq> set s"
proof -
  have "set (py_rstrip t) \<subseteq> set t" for t
    using set_dropWhileD [of _ py_isspace "rev t"] by (auto simp: py_rstrip_def)
  moreover have "set (py_lstrip t) \<subseteq> set t" for t
    using set_dropWhileD [of _ py_isspace t] by (auto simp: py_lstrip_def)
  ultimately show ?thesis unfolding py_strip_def by blast
qed

section \<open>Headings and white space\<close>

lemma startswith_prefix: "startswith s p \<longleftrightarrow> prefix p s"
  by (induction s p rule: startswith.induct) auto

lemma py_in_sublist: "py_in a b \<longleftrightarrow> sublist a b"
  by (induction b) (auto simp: startswith_prefix sublist_Cons_right)

lemma keep_spaces_id: "spaces_kept U \<Longrightarrow> keep_spaces U = U"
  by (cases U) (auto simp: spaces_kept_def keep_spaces_def)

lemma spaces_kept_keep: "spaces_kept (keep_spaces U)"
  by (simp add: spaces_kept_def keep_spaces_def)

lemma upper_Cons_space: "py_isspace c \<Longrightarrow> py_upper (keep_spaces U) (c # l) = c # py_upper (keep_spaces U) l"
  by (simp add: py_upper_def keep_spaces_def)

lemma upper_snoc_space: "py_isspace c \<Longrightarrow> py_upper (keep_spaces U) (l @ [c]) = py_upper (keep_spaces U) l @ [c]"
  by (simp add: py_upper_def keep_spaces_def)

lemma keyword_ends:
  "kw \<in> set section_keywords \<Longrightarrow> kw \<noteq> [] \<and> \<not> py_isspace (hd kw) \<and> \<not> py_isspace (last kw)"
  by (auto simp: section_keywords_def ascii_def py_isspace_def)

lemma py_in_Cons_space:
  "kw \<noteq> [] \<Longrightarrow> \<not> py_isspace (hd kw) \<Longrightarrow> py_isspace c \<Longrightarrow> py_in kw (c # s) = py_in kw s"
  by (cases kw) (auto simp: py_in_sublist sublist_Cons_right)

lemma py_in_snoc_space:
  "kw \<noteq> [] \<Longrightarrow> \<not> py_isspace (last kw) \<Longrightarrow> py_isspace c \<Longrightarrow> py_in kw (s @ [c]) = py_in kw s"
proof -
  assume a: "kw \<noteq> []" "\<not> py_isspace (last kw)" "py_isspace c"
  have "sublist kw (s @ [c]) \<longleftrightarrow> sublist (rev kw) (c # rev s)"
    using sublist_rev [of kw "s @ [c]"] by simp
  also have "\<dots> \<longleftrightarrow> sublist (rev kw) (rev s)"
    using a by (cases kw rule: rev_cases) (auto simp: sublist_Cons_right)
  finally show ?thesis by (simp add: py_in_sublist)
qed

lemma keyword_in_upper_Cons:
  "kw \<in> set section_keywords \<Longrightarrow> py_isspace c \<Longrightarrow>
   py_in kw (py_upper (keep_spaces U) (c # l)) = py_in kw (py_upper (keep_spaces U) l)"
  using py_in_Cons_space [of kw c "py_upper (keep_spaces U) l"] keyword_ends [of kw]
  by (simp add: upper_Cons_space del: py_in.simps)

lemma keyword_in_upper_snoc:
  "kw \<in> set section_keywords \<Longrightarrow> py_isspace c \<Longrightarrow>
   py_in kw (py_upper (keep_spaces U) (l @ [c])) = py_in kw (py_upper (keep_spaces U) l)"
  using py_in_snoc_space [of kw c "py_upper (keep_spaces U) l"] keyword_ends [of kw]
  by (simp add: upper_snoc_space del: py_in.simps)

lemma heading_Cons_space: "py_isspace c \<Longrightarrow> is_section_heading (keep_spaces U) (c # l) = is_section_heading (keep_spaces U) l"
  by (auto simp: is_section_heading_def strip_Cons_space list_ex_iff keyword_in_upper_Cons
      simp del: py_in.simps)

lemma heading_snoc_space: "py_isspace c \<Longrightarrow> is_section_heading (keep_spaces U) (l @ [c]) = is_section_heading (keep_spaces U) l"
  by (auto simp: is_section_heading_def strip_snoc_space list_ex_iff keyword_in_upper_snoc
      simp del: py_in.simps)

lemma heading_lstrip: "is_section_heading (keep_spaces U) (py_lstrip l) = is_section_heading (keep_spaces U) l"
  by (induction l) (auto simp: py_lstrip_def heading_Cons_space)

lemma heading_rstrip: "is_section_heading (keep_spaces U) (py_rstrip l) = is_section_heading (keep_spaces U) l"
  by (induction l rule: rev_induct) (auto simp: py_rstrip_def heading_snoc_space)

lemma heading_strip: "is_section_heading (keep_spaces U) (py_strip l) = is_section_heading (keep_spaces U) l"
  by (simp add: py_strip_def heading_lstrip heading_rstrip)

lemma heading_nonempty: "is_section_heading (keep_spaces U) l \<Longrightarrow> l \<noteq> []"
  using heading_strip_nonempty [of "keep_spaces U" l] by (auto simp: strip_Nil)

lemma not_heading_Nil: "\<not> is_section_heading (keep_spaces U) []"
  using heading_nonempty by blast

section \<open>Parsing and white space at the ends of a document\<close>

lemma parse_loop_append:
  "parse_loop (keep_spaces U) (ls @ ls') S cur content =
     (case parse_loop (keep_spaces U) ls S cur content of (S', cur', content') \<Rightarrow> parse_loop (keep_spaces U) ls' S' cur' content')"
  by (induction ls arbitrary: S cur content) auto

lemma parse_loop_body_lines:
  "\<forall>l\<in>set ls. \<not> is_section_heading (keep_spaces U) l \<Longrightarrow>
   parse_loop (keep_spaces U) ls S cur content = (S, cur, if truthy cur then content @ ls else content)"
  by (induction ls arbitrary: content) auto

lemma split_on_snoc:
  "c \<noteq> sep \<Longrightarrow>
   split_on sep (s @ [c]) = butlast (split_on sep s) @ [last (split_on sep s) @ [c]]"
  by (induction s) (auto split: list.splits simp: split_on_nonempty)

lemma join_lines_snoc:
  "join_lines (xs @ [l]) = (if xs = [] then l else join_lines xs @ NL # l)"
  by (induction xs) (auto simp: join_lines_def join_with_Cons)

lemma save_section_blank_line:
  "save_section cur (content @ [[]]) S = save_section cur content S"
proof (cases cur)
  case None
  then show ?thesis by simp
next
  case (Some k)
  have "py_strip (join_lines (content @ [[]])) = py_strip (join_lines content)"
    using strip_snoc_space [OF space_NL, of "join_lines content"]
    by (simp add: join_lines_snoc) (simp add: join_lines_def)
  with Some show ?thesis by simp
qed

lemma save_section_last_space:
  "py_isspace c \<Longrightarrow>
   save_section cur (content @ [l @ [c]]) S = save_section cur (content @ [l]) S"
proof (cases cur)
  case None
  then show ?thesis by simp
next
  case (Some k)
  assume c: "py_isspace c"
  have "join_lines (content @ [l @ [c]]) = join_lines (content @ [l]) @ [c]"
    by (simp add: join_lines_snoc)
  then have "py_strip (join_lines (content @ [l @ [c]])) = py_strip (join_lines (content @ [l]))"
    using strip_snoc_space [OF c] by simp
  with Some show ?thesis by simp
qed

lemma finish_snoc_space:
  assumes "py_isspace c"
  shows "finish (parse_loop (keep_spaces U) (split_lines (s @ [c])) S cur content) =
         finish (parse_loop (keep_spaces U) (split_lines s) S cur content)"
proof (cases "c = NL")
  case True
  have "split_lines (s @ [c]) = split_lines s @ [[]]"
    using True split_on_append [of NL s "[]"] by (simp add: split_lines_def)
  then show ?thesis
    by (simp add: parse_loop_append finish_def not_heading_Nil save_section_blank_line
        split: prod.splits)
next
  case False
  obtain bl l where bl: "split_lines s = bl @ [l]"
    using split_on_nonempty [of NL s] by (cases "split_lines s" rule: rev_cases)
      (auto simp: split_lines_def)
  then have "split_lines (s @ [c]) = bl @ [l @ [c]]"
    using False split_on_snoc [of c NL s] by (simp add: split_lines_def)
  with bl show ?thesis
    using assms
    by (simp add: parse_loop_append finish_def heading_snoc_space strip_snoc_space
        save_section_last_space split: prod.splits)
qed

lemma finish_rstrip:
  "finish (parse_loop (keep_spaces U) (split_lines (py_rstrip s)) S cur content) =
   finish (parse_loop (keep_spaces U) (split_lines s) S cur content)"
proof (induction s rule: rev_induct)
  case Nil
  then show ?case by (simp add: py_rstrip_def)
next
  case (snoc c s)
  show ?case
  proof (cases "py_isspace c")
    case True
    then show ?thesis using snoc by (simp add: rstrip_snoc_space finish_snoc_space)
  next
    case False
    then show ?thesis by (simp add: py_rstrip_def)
  qed
qed

lemma finish_Cons_space:
  assumes "py_isspace c"
  shows "finish (parse_loop (keep_spaces U) (split_lines (c # s)) [] None []) =
         finish (parse_loop (keep_spaces U) (split_lines s) [] None [])"
proof (cases "c = NL")
  case True
  then show ?thesis by (simp add: split_lines_def not_heading_Nil)
next
  case False
  obtain l ls where l: "split_on NL s = l # ls"
    using split_on_nonempty [of NL s] by (cases "split_on NL s") auto
  with False show ?thesis
    using assms by (simp add: split_lines_def heading_Cons_space strip_Cons_space)
qed

lemma finish_lstrip:
  "finish (parse_loop (keep_spaces U) (split_lines (py_lstrip s)) [] None []) =
   finish (parse_loop (keep_spaces U) (split_lines s) [] None [])"
proof (induction s)
  case Nil
  then show ?case by (simp add: py_lstrip_def)
next
  case (Cons c s)
  show ?case
  proof (cases "py_isspace c")
    case True
    then show ?thesis using Cons by (simp add: lstrip_Cons_space finish_Cons_space)
  next
    case False
    then show ?thesis by (simp add: py_lstrip_def)
  qed
qed

lemma finish_strip:
  "finish (parse_loop (keep_spaces U) (split_lines (py_strip s)) [] None []) =
   finish (parse_loop (keep_spaces U) (split_lines s) [] None [])"
  by (simp add: py_strip_def finish_rstrip finish_lstrip)

lemma body_lines_Cons_space:
  assumes "py_isspace c" and "\<forall>l\<in>set (split_lines (c # x)). \<not> is_section_heading (keep_spaces U) l"
  shows "\<forall>l\<in>set (split_lines x). \<not> is_section_heading (keep_spaces U) l"
proof (cases "c = NL")
  case True
  then show ?thesis using assms(2) by (simp add: split_lines_def)
next
  case False
  obtain l ls where l: "split_on NL x = l # ls"
    using split_on_nonempty [of NL x] by (cases "split_on NL x") auto
  with False show ?thesis
    using assms by (simp add: split_lines_def heading_Cons_space)
qed

lemma body_lines_snoc_space:
  assumes "py_isspace c" and "\<forall>l\<in>set (split_lines (x @ [c])). \<not> is_section_heading (keep_spaces U) l"
  shows "\<forall>l\<in>set (split_lines x). \<not> is_section_heading (keep_spaces U) l"
proof (cases "c = NL")
  case True
  then show ?thesis
    using assms(2) split_on_append [of NL x "[]"] by (simp add: split_lines_def)
next
  case False
  obtain bl l where bl: "split_lines x = bl @ [l]"
    using split_on_nonempty [of NL x] by (cases "split_lines x" rule: rev_cases)
      (auto simp: split_lines_def)
  then have "split_lines (x @ [c]) = bl @ [l @ [c]]"
    using False split_on_snoc [of c NL x] by (simp add: split_lines_def)
  with bl show ?thesis using assms by (simp add: heading_snoc_space)
qed

lemma body_lines_lstrip:
  "\<forall>l\<in>set (split_lines x). \<not> is_section_heading (keep_spaces U) l \<Longrightarrow>
   \<forall>l\<in>set (split_lines (py_lstrip x)). \<not> is_section_heading (keep_spaces U) l"
proof (induction x)
  case Nil
  then show ?case by (simp add: py_lstrip_def)
next
  case (Cons c x)
  show ?case
  proof (cases "py_isspace c")
    case True
    then show ?thesis
      using Cons.IH [OF body_lines_Cons_space [OF True Cons.prems]]
      by (simp add: lstrip_Cons_space)
  next
    case False
    then show ?thesis using Cons.prems by (simp add: py_lstrip_def)
  qed
qed

lemma body_lines_rstrip:
  "\<forall>l\<in>set (split_lines x). \<not> is_section_heading (keep_spaces U) l \<Longrightarrow>
   \<forall>l\<in>set (split_lines (py_rstrip x)). \<not> is_section_heading (keep_spaces U) l"
proof (induction x rule: rev_induct)
  case Nil
  then show ?case by (simp add: py_rstrip_def)
next
  case (snoc c x)
  show ?case
  proof (cases "py_isspace c")
    case True
    then show ?thesis
      using snoc.IH [OF body_lines_snoc_space [OF True snoc.prems]]
      by (simp add: rstrip_snoc_space)
  next
    case False
    then show ?thesis using snoc.prems by (simp add: py_rstrip_def)
  qed
qed

lemma body_lines_strip:
  "\<forall>l\<in>set (split_lines x). \<not> is_section_heading (keep_spaces U) l \<Longrightarrow>
   \<forall>l\<in>set (split_lines (py_strip x)). \<not> is_section_heading (keep_spaces U) l"
  unfolding py_strip_def by (intro body_lines_rstrip body_lines_lstrip)

section \<open>Parsing a serialised document\<close>

lemma dict_set_fresh: "k \<notin> set (dict_keys D) \<Longrightarrow> dict_set k v D = D @ [(k, v)]"
  by (induction D) (auto simp: dict_keys_def)

lemma set_dict_set: "set (dict_set k v D) \<subseteq> insert (k, v) (set D)"
  by (induction D) (auto split: if_splits)

lemma foldl_dict_set_fresh:
  "distinct (dict_keys D @ map fst T) \<Longrightarrow>
   foldl (\<lambda>D kc. dict_set (fst kc) (py_strip (snd kc)) D) D T = D @ strip_bodies T"
proof (induction T arbitrary: D)
  case Nil
  then show ?case by (simp add: strip_bodies_def)
next
  case (Cons kc T)
  have f: "fst kc \<notin> set (dict_keys D)" using Cons.prems by auto
  have "distinct (dict_keys (D @ [(fst kc, py_strip (snd kc))]) @ map fst T)"
    using Cons.prems by (auto simp: dict_keys_def)
  from Cons.IH [OF this] show ?case
    by (simp add: dict_set_fresh [OF f] strip_bodies_def case_prod_beta)
qed

lemma parse_section_lines:
  "\<forall>kc\<in>set T. good_key (keep_spaces U) (fst kc) \<and> good_body (keep_spaces U) (snd kc) \<Longrightarrow>
   finish (parse_loop (keep_spaces U) (concat (map section_lines T)) D cur content) =
   foldl (\<lambda>D kc. dict_set (fst kc) (py_strip (snd kc)) D) (save_section cur content D) T"
proof (induction T arbitrary: D cur content)
  case Nil
  then show ?case by (simp add: finish_def)
next
  case (Cons kc T)
  obtain k c where kc: "kc = (k, c)" by (cases kc)
  from Cons.prems kc have k: "is_section_heading (keep_spaces U) k" "py_strip k = k" and c: "good_body (keep_spaces U) c"
    by (auto simp: good_key_def)
  have ne: "k \<noteq> []" using k(1) by (rule heading_nonempty)
  have body: "\<forall>l\<in>set (split_lines c @ [[]]). \<not> is_section_heading (keep_spaces U) l"
    using c by (auto simp: good_body_def not_heading_Nil)
  have "finish (parse_loop (keep_spaces U) (concat (map section_lines (kc # T))) D cur content) =
        finish (parse_loop (keep_spaces U) ((split_lines c @ [[]]) @ concat (map section_lines T))
                 (save_section cur content D) (Some k) [])"
    using k kc by (simp add: section_lines_def)
  also have "\<dots> = finish (parse_loop (keep_spaces U) (concat (map section_lines T))
                 (save_section cur content D) (Some k) (split_lines c @ [[]]))"
  proof -
    have "parse_loop (keep_spaces U) (split_lines c @ [[]]) (save_section cur content D) (Some k) [] =
          (save_section cur content D, Some k, split_lines c @ [[]])"
      using ne by (simp only: parse_loop_body_lines [OF body]) simp
    then show ?thesis
      using parse_loop_append [of U "split_lines c @ [[]]" "concat (map section_lines T)"
          "save_section cur content D" "Some k" "[]"]
      by (simp only: prod.case)
  qed
  also have "\<dots> = foldl (\<lambda>D kc. dict_set (fst kc) (py_strip (snd kc)) D)
                 (save_section (Some k) (split_lines c @ [[]]) (save_section cur content D)) T"
    using Cons.prems by (intro Cons.IH) simp
  also have "save_section (Some k) (split_lines c @ [[]]) (save_section cur content D) =
             dict_set k (py_strip c) (save_section cur content D)"
    using ne by (simp only: save_section_blank_line) (simp add: join_split)
  finally show ?case using kc by simp
qed

lemma serialized_lines:
  assumes "S \<noteq> []" and "\<forall>kc\<in>set S. NL \<notin> set (fst kc)"
  shows "split_lines (join_lines (concat (map (\<lambda>(k, c). [k, c, []]) S))) =
         concat (map section_lines S)"
proof -
  have ne: "concat (map (\<lambda>(k, c). [k, c, []]) S) \<noteq> []"
    using assms(1) by (cases S) auto
  have "concat (map split_lines (concat (map (\<lambda>(k, c). [k, c, []]) S))) =
        concat (map section_lines S)"
    using assms(2)
    by (induction S) (auto simp: section_lines_def split_lines_def split_on_no_sep)
  with ne show ?thesis by (simp add: split_join_chunks)
qed

lemma parse_serialized:
  assumes "S \<noteq> []" and "well_formed_sections (keep_spaces U) S"
  shows "parse_sections (keep_spaces U) (serialize_sections S) = strip_bodies S"
proof -
  have g: "\<forall>kc\<in>set S. good_key (keep_spaces U) (fst kc) \<and> good_body (keep_spaces U) (snd kc)"
    using assms(2) by (auto simp: well_formed_sections_def)
  then have n: "\<forall>kc\<in>set S. NL \<notin> set (fst kc)" by (auto simp: good_key_def)
  have d: "distinct (dict_keys [] @ map fst S)"
    using assms(2) by (simp add: well_formed_sections_def dict_keys_def)
  have "finish (parse_loop (keep_spaces U) (split_lines (serialize_sections S)) [] None []) =
        finish (parse_loop (keep_spaces U) (concat (map section_lines S)) [] None [])"
    by (simp add: serialize_sections_def finish_strip serialized_lines [OF assms(1) n])
  also have "\<dots> = strip_bodies S"
    using parse_section_lines [OF g, of "[]" None "[]"] foldl_dict_set_fresh [OF d] by simp
  finally have f: "finish (parse_loop (keep_spaces U) (split_lines (serialize_sections S)) [] None []) = strip_bodies S" .
  have "strip_bodies S \<noteq> []" using assms(1) by (simp add: strip_bodies_def)
  with f show ?thesis by (simp add: parse_sections_finish)
qed

section \<open>The sections of a parsed document\<close>

lemma good_body_joined:
  assumes "\<forall>l\<in>set content. \<not> is_section_heading (keep_spaces U) l \<and> NL \<notin> set l"
  shows "good_body (keep_spaces U) (py_strip (join_lines content))"
proof -
  have "\<forall>l\<in>set (split_lines (join_lines content)). \<not> is_section_heading (keep_spaces U) l"
  proof (cases "content = []")
    case True
    then show ?thesis by (simp add: join_lines_def split_lines_def not_heading_Nil)
  next
    case False
    then show ?thesis using assms split_join [of content] by auto
  qed
  then show ?thesis unfolding good_body_def by (rule body_lines_strip)
qed

lemma save_section_wf:
  assumes "well_formed_sections (keep_spaces U) D" and "\<forall>kc\<in>set D. py_strip (snd kc) = snd kc"
    and "cur = None \<or> (\<exists>k. cur = Some k \<and> good_key (keep_spaces U) k)"
    and "\<forall>l\<in>set content. \<not> is_section_heading (keep_spaces U) l \<and> NL \<notin> set l"
  shows "well_formed_sections (keep_spaces U) (save_section cur content D) \<and>
         (\<forall>kc\<in>set (save_section cur content D). py_strip (snd kc) = snd kc)"
proof (cases cur)
  case None
  then show ?thesis using assms by simp
next
  case (Some k)
  with assms(3) have k: "good_key (keep_spaces U) k" by simp
  then have ne: "k \<noteq> []" by (auto simp: good_key_def dest: heading_nonempty)
  let ?c = "py_strip (join_lines content)"
  have b: "good_body (keep_spaces U) ?c" using assms(4) by (rule good_body_joined)
  have s: "set (dict_set k ?c D) \<subseteq> insert (k, ?c) (set D)" by (rule set_dict_set)
  have "distinct (dict_keys (dict_set k ?c D))"
    using assms(1) by (simp add: well_formed_sections_def dict_keys_set)
  moreover have "\<forall>(k, c)\<in>set (dict_set k ?c D). good_key (keep_spaces U) k \<and> good_body (keep_spaces U) c"
    using s k b assms(1) by (auto simp: well_formed_sections_def)
  moreover have "\<forall>kc\<in>set (dict_set k ?c D). py_strip (snd kc) = snd kc"
    using s assms(2) by (auto simp: strip_idem)
  ultimately show ?thesis using Some ne by (simp add: well_formed_sections_def)
qed

lemma parse_loop_wf:
  assumes "\<forall>l\<in>set ls. NL \<notin> set l"
    and "well_formed_sections (keep_spaces U) D" and "\<forall>kc\<in>set D. py_strip (snd kc) = snd kc"
    and "cur = None \<or> (\<exists>k. cur = Some k \<and> good_key (keep_spaces U) k)"
    and "\<forall>l\<in>set content. \<not> is_section_heading (keep_spaces U) l \<and> NL \<notin> set l"
  shows "well_formed_sections (keep_spaces U) (finish (parse_loop (keep_spaces U) ls D cur content)) \<and>
         (\<forall>kc\<in>set (finish (parse_loop (keep_spaces U) ls D cur content)). py_strip (snd kc) = snd kc)"
  using assms
proof (induction ls arbitrary: D cur content)
  case Nil
  then show ?case using save_section_wf [of U D cur content] by (simp add: finish_def)
next
  case (Cons line ls)
  show ?case
  proof (cases "is_section_heading (keep_spaces U) line")
    case True
    have k: "good_key (keep_spaces U) (py_strip line)"
      using True Cons.prems(1) set_strip [of line]
      by (auto simp: good_key_def heading_strip strip_idem)
    have w: "well_formed_sections (keep_spaces U) (save_section cur content D) \<and>
             (\<forall>kc\<in>set (save_section cur content D). py_strip (snd kc) = snd kc)"
      using Cons.prems by (intro save_section_wf) auto
    show ?thesis
      using True Cons.IH [of "save_section cur content D" "Some (py_strip line)" "[]"]
        Cons.prems(1) w k
      by simp
  next
    case False
    show ?thesis
      using False Cons.IH [of D cur "if truthy cur then content @ [line] else content"]
        Cons.prems
      by simp
  qed
qed

lemma parse_sections_wf:
  assumes "section_headings (keep_spaces U) doc \<noteq> []"
  shows "parse_sections (keep_spaces U) doc \<noteq> [] \<and> well_formed_sections (keep_spaces U) (parse_sections (keep_spaces U) doc) \<and>
         strip_bodies (parse_sections (keep_spaces U) doc) = parse_sections (keep_spaces U) doc"
proof -
  let ?F = "finish (parse_loop (keep_spaces U) (split_lines doc) [] None [])"
  have ne: "?F \<noteq> []" using assms by (simp add: finish_parse_empty)
  have n: "\<forall>l\<in>set (split_lines doc). NL \<notin> set l"
    by (auto simp: split_lines_def dest: split_on_lines_no_sep)
  have "well_formed_sections (keep_spaces U) ?F \<and> (\<forall>kc\<in>set ?F. py_strip (snd kc) = snd kc)"
    using n by (intro parse_loop_wf) (auto simp: well_formed_sections_def dict_keys_def)
  moreover then have "strip_bodies ?F = ?F"
    by (auto simp: strip_bodies_def intro!: map_idI)
  ultimately show ?thesis using ne by (simp add: parse_sections_finish)
qed

lemma parse_sections_no_heading:
  "section_headings (keep_spaces U) doc = [] \<Longrightarrow> parse_sections (keep_spaces U) doc = [(full_prompt_key, doc)]"
  by (simp add: parse_sections_finish finish_parse_empty)

section \<open>Editing the requirements section\<close>

lemma dict_get_present:
  "k \<in> set (dict_keys S) \<Longrightarrow> \<exists>c. dict_get S k = Some c \<and> (k, c) \<in> set S"
  by (induction S) (auto simp: dict_keys_def dict_get_def)


lemma dict_get_dict_set_same: "dict_get (dict_set k v S) k = Some v"
  by (induction S) (auto simp: dict_get_def)

lemma dict_set_nonempty: "dict_set k v S \<noteq> []"
  by (cases S) (auto split: if_splits)

lemma strip_bodies_dict_set:
  "strip_bodies (dict_set k v S) = dict_set k (py_strip v) (strip_bodies S)"
  by (induction S) (auto simp: strip_bodies_def)

lemma wf_dict_set:
  assumes "well_formed_sections U S" and "k \<in> set (dict_keys S)" and "good_body U v"
  shows "well_formed_sections U (dict_set k v S)"
proof -
  obtain c where "(k, c) \<in> set S" using dict_get_present [OF assms(2)] by blast
  then have "good_key U k" using assms(1) by (auto simp: well_formed_sections_def)
  then show ?thesis
    using assms set_dict_set [of k v S]
    by (auto simp: well_formed_sections_def dict_keys_set)
qed

lemma wf_key_nonempty:
  "well_formed_sections (keep_spaces U) S \<Longrightarrow> k \<in> set (dict_keys S) \<Longrightarrow> k \<noteq> []"
  using dict_get_present [of k S]
  by (auto simp: well_formed_sections_def good_key_def dest: heading_nonempty)

lemma find_requirements_Some:
  "find_requirements_section U S = Some k \<Longrightarrow> k \<in> set (dict_keys S) \<and> is_requirements_key U k"
  by (auto simp: find_requirements_section_def find_Some_iff)



lemma remove_sections_Some:
  "find_requirements_section V S = Some rk \<Longrightarrow> rk \<noteq> [] \<Longrightarrow> dict_get S rk = Some c \<Longrightarrow>
   remove_requirement_sections V m S =
     dict_set rk (py_strip (join_lines
        (filter (\<lambda>line. \<not> py_in (py_lower V m) (py_lower V line)) (split_lines c)))) S"
  by (simp add: remove_requirement_sections_def)






section \<open>Updating a section twice\<close>

lemma dict_set_dict_set: "dict_set k v (dict_set k v' S) = dict_set k v S"
  by (induction S) auto

lemma dict_get_dict_set_id: "dict_get S k = Some c \<Longrightarrow> dict_set k c S = S"
  by (induction S) (auto simp: dict_get_def split: if_splits)








section \<open>Adding a requirement and removing it\<close>

lemma add_sections_Some:
  "find_requirements_section V S = Some rk \<Longrightarrow> rk \<noteq> [] \<Longrightarrow> dict_get S rk = Some c \<Longrightarrow>
   add_requirement_sections V r S = dict_set rk (c @ [NL] @ ascii ''- '' @ r) S"
  by (simp add: add_requirement_sections_def)

lemma find_requirements_dict_set:
  "rk \<in> set (dict_keys S) \<Longrightarrow>
   find_requirements_section V (dict_set rk v S) = find_requirements_section V S"
  by (simp add: find_requirements_section_def dict_keys_set)

lemma dash_not_space: "\<not> py_isspace 45"
  by (simp add: py_isspace_def)

lemma not_heading_dash: "\<not> is_section_heading V (ascii ''- '' @ r)"
proof
  assume "is_section_heading V (ascii ''- '' @ r)"
  then have s: "startswith (py_strip (45 # 32 # r)) [35]"
    by (simp add: is_section_heading_def ascii_def)
  then have ne: "py_strip (45 # 32 # r) \<noteq> []" by (rule startswith_nonempty)
  have l: "py_lstrip (45 # 32 # r) = 45 # 32 # r"
    by (simp add: py_lstrip_def dash_not_space)
  have "hd (py_strip (45 # 32 # r)) = 45"
    using ne rstrip_hd [of "45 # 32 # r"] by (simp add: py_strip_def l)
  with s ne show False by (cases "py_strip (45 # 32 # r)") auto
qed

lemma lines_added:
  "NL \<notin> set r \<Longrightarrow>
   split_lines (c @ [NL] @ ascii ''- '' @ r) = split_lines c @ [ascii ''- '' @ r]"
proof -
  assume n: "NL \<notin> set r"
  have "NL \<notin> set (ascii ''- '' @ r)" using n by (simp add: ascii_def NL_def)
  then have "split_on NL (ascii ''- '' @ r) = [ascii ''- '' @ r]" by (rule split_on_no_sep)
  then show ?thesis
    using split_on_append [of NL c "ascii ''- '' @ r"] by (simp add: split_lines_def)
qed

lemma good_body_added:
  assumes "good_body V c" and "NL \<notin> set r"
  shows "good_body V (c @ [NL] @ ascii ''- '' @ r)"
  using assms(1) not_heading_dash [of V r]
  unfolding good_body_def lines_added [OF assms(2)] by simp

lemma strip_added:
  assumes "py_strip c = c" and "r \<noteq> []" and "\<not> py_isspace (last r)"
  shows "py_strip (c @ [NL] @ ascii ''- '' @ r) =
           (if c = [] then ascii ''- '' @ r else c @ [NL] @ ascii ''- '' @ r)"
proof (cases "c = []")
  case True
  have "py_strip ([NL] @ ascii ''- '' @ r) = py_strip (ascii ''- '' @ r)"
    using strip_Cons_space [OF space_NL, of "ascii ''- '' @ r"] by simp
  also have "\<dots> = ascii ''- '' @ r"
    using assms(2,3) by (intro strip_stripped) (simp add: ascii_def dash_not_space)
  finally show ?thesis using True by simp
next
  case False
  have "\<not> py_isspace (hd c)" using strip_ends [of c] False assms(1) by simp
  then have "py_strip (c @ [NL] @ ascii ''- '' @ r) = c @ [NL] @ ascii ''- '' @ r"
    using False assms(2,3) by (intro strip_stripped) (simp add: ascii_def)
  then show ?thesis using False by simp
qed

lemma removed_added:
  assumes "py_strip c = c" and "r \<noteq> []" and "\<not> py_isspace (last r)" and "NL \<notin> set r"
    and "\<forall>l\<in>set (split_lines c). \<not> P l" and "P (ascii ''- '' @ r)"
  shows "py_strip (join_lines (filter (\<lambda>line. \<not> P line)
           (split_lines (py_strip (c @ [NL] @ ascii ''- '' @ r))))) = c"
proof (cases "c = []")
  case True
  have "split_lines (ascii ''- '' @ r) = [ascii ''- '' @ r]"
    using lines_added [OF assms(4), of "[]"] split_on_append [of NL "[]" "ascii ''- '' @ r"]
    by (simp add: split_lines_def)
  moreover have "py_strip (c @ [NL] @ ascii ''- '' @ r) = ascii ''- '' @ r"
    unfolding strip_added [OF assms(1,2,3)] using True by simp
  ultimately have "py_strip (join_lines (filter (\<lambda>line. \<not> P line)
           (split_lines (py_strip (c @ [NL] @ ascii ''- '' @ r))))) = py_strip (join_lines [])"
    using assms(6) by simp
  then show ?thesis using True by (simp add: join_lines_def strip_Nil)
next
  case False
  have f: "filter (\<lambda>line. \<not> P line) (split_lines c) = split_lines c"
    using assms(5) by (simp add: filter_id_conv)
  have sa: "py_strip (c @ [NL] @ ascii ''- '' @ r) = c @ [NL] @ ascii ''- '' @ r"
    unfolding strip_added [OF assms(1,2,3)] using False by simp
  have "split_lines (py_strip (c @ [NL] @ ascii ''- '' @ r)) = split_lines c @ [ascii ''- '' @ r]"
    unfolding sa by (rule lines_added [OF assms(4)])
  then have "filter (\<lambda>line. \<not> P line) (split_lines (py_strip (c @ [NL] @ ascii ''- '' @ r))) =
        split_lines c"
    using assms(6) f by simp
  then have "py_strip (join_lines (filter (\<lambda>line. \<not> P line)
           (split_lines (py_strip (c @ [NL] @ ascii ''- '' @ r))))) =
        py_strip (join_lines (split_lines c))"
    by (rule arg_cong)
  then show ?thesis by (simp add: join_split assms(1))
qed

lemma strip_bodies_id: "strip_bodies S = S \<Longrightarrow> (k, c) \<in> set S \<Longrightarrow> py_strip c = c"
  by (induction S) (auto simp: strip_bodies_def)

lemma dict_get_member: "dict_get S k = Some c \<Longrightarrow> (k, c) \<in> set S"
  unfolding dict_get_def by (rule map_of_SomeD)

lemma add_then_remove:
  assumes "section_headings (keep_spaces U) doc \<noteq> []"
    and "find_requirements_section (keep_spaces U) (parse_sections (keep_spaces U) doc) = Some rk"
    and "dict_get (parse_sections (keep_spaces U) doc) rk = Some c"
    and "NL \<notin> set r" and "r \<noteq> []" and "\<not> py_isspace (last r)"
    and "\<forall>l\<in>set (split_lines c). \<not> py_in (py_lower (keep_spaces U) r) (py_lower (keep_spaces U) l)"
    and "py_in (py_lower (keep_spaces U) r) (py_lower (keep_spaces U) (ascii ''- '' @ r))"
  shows "remove_requirement_from_prompt (keep_spaces U)
           (add_requirement_to_prompt (keep_spaces U) doc r) r =
         serialize_sections (parse_sections (keep_spaces U) doc)"
proof -
  let ?V = "keep_spaces U"
  let ?S = "parse_sections ?V doc"
  let ?c1 = "c @ [NL] @ ascii ''- '' @ r"
  let ?P = "\<lambda>line. py_in (py_lower ?V r) (py_lower ?V line)"
  have wf: "well_formed_sections ?V ?S"
    using parse_sections_wf [OF assms(1)] by (elim conjE)
  have st: "strip_bodies ?S = ?S"
    using parse_sections_wf [OF assms(1)] by (elim conjE)
  have rk: "rk \<in> set (dict_keys ?S)" using find_requirements_Some [OF assms(2)] by (rule conjunct1)
  have rne: "rk \<noteq> []" using wf rk by (rule wf_key_nonempty)
  have mem: "(rk, c) \<in> set ?S" using assms(3) by (rule dict_get_member)
  have sc: "py_strip c = c" using st mem by (rule strip_bodies_id)
  have gb: "good_body ?V c" using wf mem unfolding well_formed_sections_def by blast
  have a1: "add_requirement_sections ?V r ?S = dict_set rk ?c1 ?S"
    using assms(2) rne assms(3) by (rule add_sections_Some)
  have gb1: "good_body ?V ?c1" using gb assms(4) by (rule good_body_added)
  have wf1: "well_formed_sections ?V (dict_set rk ?c1 ?S)" using wf rk gb1 by (rule wf_dict_set)
  have ne1: "dict_set rk ?c1 ?S \<noteq> []" by (rule dict_set_nonempty)
  let ?S1 = "dict_set rk (py_strip ?c1) ?S"
  have "parse_sections ?V (add_requirement_to_prompt ?V doc r) =
        parse_sections ?V (serialize_sections (dict_set rk ?c1 ?S))"
    unfolding add_requirement_to_prompt_def a1 ..
  also have "\<dots> = strip_bodies (dict_set rk ?c1 ?S)" using ne1 wf1 by (rule parse_serialized)
  also have "\<dots> = dict_set rk (py_strip ?c1) (strip_bodies ?S)" by (rule strip_bodies_dict_set)
  finally have p1: "parse_sections ?V (add_requirement_to_prompt ?V doc r) = ?S1"
    unfolding st .
  have f1: "find_requirements_section ?V ?S1 = Some rk"
    unfolding find_requirements_dict_set [OF rk] by (rule assms(2))
  have g1: "dict_get ?S1 rk = Some (py_strip ?c1)" by (rule dict_get_dict_set_same)
  have "remove_requirement_sections ?V r ?S1 =
        dict_set rk (py_strip (join_lines (filter (\<lambda>line. \<not> ?P line)
           (split_lines (py_strip ?c1))))) ?S1"
    using f1 rne g1 by (rule remove_sections_Some)
  also have "\<dots> = dict_set rk c ?S1"
    unfolding removed_added [of c r ?P, OF sc assms(5) assms(6) assms(4) assms(7) assms(8)] ..
  also have "\<dots> = dict_set rk c ?S" by (rule dict_set_dict_set)
  also have "\<dots> = ?S" using assms(3) by (rule dict_get_dict_set_id)
  finally have r1: "remove_requirement_sections ?V r ?S1 = ?S" .
  show ?thesis
    unfolding remove_requirement_from_prompt_def [of ?V "add_requirement_to_prompt ?V doc r" r] p1 r1 ..
qed

text \<open>
  C4, as the claim states it, fails: the requirements section of the document below
  has the two lines \<open>- fast\<close> and \<open>- very fast\<close>; after the requirement \<open>fast\<close> is
  added and removed again the section is empty, because the removal takes every line
  that contains the text.
\<close>

theorem C4_lines_lost_counterexample:
  "dict_get (parse_sections ascii_tables (ascii ''# REQUIREMENTS\<newline>- fast\<newline>- very fast''))
     (ascii ''# REQUIREMENTS'') = Some (ascii ''- fast\<newline>- very fast'') \<and>
   dict_get (parse_sections ascii_tables
       (remove_requirement_from_prompt ascii_tables
          (add_requirement_to_prompt ascii_tables
             (ascii ''# REQUIREMENTS\<newline>- fast\<newline>- very fast'') (ascii ''fast''))
          (ascii ''fast'')))
     (ascii ''# REQUIREMENTS'') = Some [] \<and>
   filter (\<lambda>c. \<not> py_isspace c) (ascii ''- fast\<newline>- very fast'') \<noteq> filter (\<lambda>c. \<not> py_isspace c) []"
proof -
  let ?A = ascii_tables
  have a: "add_requirement_to_prompt ?A (ascii ''# REQUIREMENTS\<newline>- fast\<newline>- very fast'') (ascii ''fast'') =
      ascii ''# REQUIREMENTS\<newline>- fast\<newline>- very fast\<newline>- fast''"
    by (simp add: str_defs doc_defs)
  have b: "remove_requirement_from_prompt ?A
      (ascii ''# REQUIREMENTS\<newline>- fast\<newline>- very fast\<newline>- fast'') (ascii ''fast'') = ascii ''# REQUIREMENTS''"
    by (simp add: str_defs doc_defs)
  have c: "dict_get (parse_sections ?A (ascii ''# REQUIREMENTS'')) (ascii ''# REQUIREMENTS'') = Some []"
    by (simp add: str_defs doc_defs)
  have d: "dict_get (parse_sections ?A (ascii ''# REQUIREMENTS\<newline>- fast\<newline>- very fast''))
     (ascii ''# REQUIREMENTS'') = Some (ascii ''- fast\<newline>- very fast'')"
    by (simp add: str_defs doc_defs)
  have e: "filter (\<lambda>c. \<not> py_isspace c) (ascii ''- fast\<newline>- very fast'') \<noteq> filter (\<lambda>c. \<not> py_isspace c) []"
    by (simp add: ascii_def py_isspace_def)
  show ?thesis unfolding a b using c d e by simp
qed

text \<open>
  C4, amended. Let the document have a recognised heading and a requirements section
  with body \<open>c\<close>, and let the requirement text \<open>r\<close> be non-empty, without a newline and
  without white space at its end, and such that no line of \<open>c\<close> contains \<open>r\<close>
  case-insensitively while the added line \<open>- r\<close> does. Then adding \<open>r\<close> and removing
  \<open>r\<close> gives the reserialisation of the document: all its sections are as they were,
  and the body of the requirements section is \<open>c\<close> exactly. The upper-case mapping is
  any that leaves white space in place.
\<close>

theorem C4_add_then_remove:
  assumes "spaces_kept U"
    and "section_headings U doc \<noteq> []"
    and "find_requirements_section U (parse_sections U doc) = Some rk"
    and "dict_get (parse_sections U doc) rk = Some c"
    and "NL \<notin> set r" and "r \<noteq> []" and "\<not> py_isspace (last r)"
    and "\<forall>l\<in>set (split_lines c). \<not> py_in (py_lower U r) (py_lower U l)"
    and "py_in (py_lower U r) (py_lower U (ascii ''- '' @ r))"
  shows "remove_requirement_from_prompt U (add_requirement_to_prompt U doc r) r =
           serialize_sections (parse_sections U doc) \<and>
         parse_sections U (remove_requirement_from_prompt U (add_requirement_to_prompt U doc r) r) =
           parse_sections U doc \<and>
         dict_get (parse_sections U
             (remove_requirement_from_prompt U (add_requirement_to_prompt U doc r) r)) rk = Some c"
proof -
  have U: "keep_spaces U = U" using assms(1) by (rule keep_spaces_id)
  let ?S = "parse_sections U doc"
  have a: "remove_requirement_from_prompt U (add_requirement_to_prompt U doc r) r =
           serialize_sections ?S"
    using add_then_remove [of U doc rk c r] assms(2-9) unfolding U by blast
  have w: "?S \<noteq> [] \<and> well_formed_sections U ?S \<and> strip_bodies ?S = ?S"
    using parse_sections_wf [of U doc] assms(2) unfolding U by blast
  have "parse_sections U (serialize_sections ?S) = strip_bodies ?S"
    using parse_serialized [of ?S U] w unfolding U by blast
  then have b: "parse_sections U (serialize_sections ?S) = ?S" using w by simp
  show ?thesis unfolding a b using assms(4) by simp
qed

theorem C4_add_then_remove_witness:
  "spaces_kept ascii_tables \<and>
   section_headings ascii_tables (ascii ''# GOAL\<newline>x\<newline># REQUIREMENTS\<newline>- fast'') \<noteq> [] \<and>
   find_requirements_section ascii_tables
     (parse_sections ascii_tables (ascii ''# GOAL\<newline>x\<newline># REQUIREMENTS\<newline>- fast'')) =
     Some (ascii ''# REQUIREMENTS'') \<and>
   dict_get (parse_sections ascii_tables (ascii ''# GOAL\<newline>x\<newline># REQUIREMENTS\<newline>- fast''))
     (ascii ''# REQUIREMENTS'') = Some (ascii ''- fast'') \<and>
   add_requirement_to_prompt ascii_tables (ascii ''# GOAL\<newline>x\<newline># REQUIREMENTS\<newline>- fast'')
     (ascii ''Cheap'') = ascii ''# GOAL\<newline>x\<newline>\<newline># REQUIREMENTS\<newline>- fast\<newline>- Cheap'' \<and>
   remove_requirement_from_prompt ascii_tables
     (add_requirement_to_prompt ascii_tables (ascii ''# GOAL\<newline>x\<newline># REQUIREMENTS\<newline>- fast'')
        (ascii ''Cheap'')) (ascii ''Cheap'') =
     ascii ''# GOAL\<newline>x\<newline>\<newline># REQUIREMENTS\<newline>- fast'' \<and>
   dict_get (parse_sections ascii_tables
       (remove_requirement_from_prompt ascii_tables
          (add_requirement_to_prompt ascii_tables (ascii ''# GOAL\<newline>x\<newline># REQUIREMENTS\<newline>- fast'')
             (ascii ''Cheap'')) (ascii ''Cheap'')))
     (ascii ''# REQUIREMENTS'') = Some (ascii ''- fast'')"
proof -
  let ?A = ascii_tables
  let ?d = "ascii ''# GOAL\<newline>x\<newline># REQUIREMENTS\<newline>- fast''"
  let ?r = "ascii ''Cheap''"
  let ?rk = "ascii ''# REQUIREMENTS''"
  have sk: "spaces_kept ?A"
    by (simp add: spaces_kept_def ascii_tables_def py_isspace_def)
  have h: "section_headings ?A ?d \<noteq> []"
    by (simp add: str_defs doc_defs)
  have p: "parse_sections ?A ?d = [(ascii ''# GOAL'', ascii ''x''), (?rk, ascii ''- fast'')]"
    by (simp add: str_defs doc_defs)
  have f: "find_requirements_section ?A (parse_sections ?A ?d) = Some ?rk"
    unfolding p by (simp add: str_defs doc_defs)
  have g: "dict_get (parse_sections ?A ?d) ?rk = Some (ascii ''- fast'')"
    unfolding p by (simp add: dict_get_def ascii_def)
  have n: "NL \<notin> set ?r" "?r \<noteq> []" "\<not> py_isspace (last ?r)"
    by (simp_all add: ascii_def NL_def py_isspace_def)
  have l: "\<forall>l\<in>set (split_lines (ascii ''- fast'')). \<not> py_in (py_lower ?A ?r) (py_lower ?A l)"
    by (simp add: str_defs)
  have i: "py_in (py_lower ?A ?r) (py_lower ?A (ascii ''- '' @ ?r))"
    by (simp add: str_defs)
  have s: "serialize_sections (parse_sections ?A ?d) = ascii ''# GOAL\<newline>x\<newline>\<newline># REQUIREMENTS\<newline>- fast''"
    unfolding p by (simp add: str_defs doc_defs)
  have a: "add_requirement_to_prompt ?A ?d ?r = ascii ''# GOAL\<newline>x\<newline>\<newline># REQUIREMENTS\<newline>- fast\<newline>- Cheap''"
    unfolding add_requirement_to_prompt_def p by (simp add: str_defs doc_defs)
  note t = C4_add_then_remove [OF sk h f g n l i]
  from t have t1: "remove_requirement_from_prompt ?A (add_requirement_to_prompt ?A ?d ?r) ?r =
      ascii ''# GOAL\<newline>x\<newline>\<newline># REQUIREMENTS\<newline>- fast''"
    unfolding s by (rule conjunct1)
  from t have t3: "dict_get (parse_sections ?A
       (remove_requirement_from_prompt ?A (add_requirement_to_prompt ?A ?d ?r) ?r)) ?rk =
       Some (ascii ''- fast'')"
    by (elim conjE)
  from sk h f g a t1 t3 show ?thesis by (simp only: simp_thms)
qed


end
